theory Spec2Isabelle
  imports Main "HOL-Library.AList"
begin

section \<open>Python values and exceptions\<close>

text \<open>
  The launcher package reads JSON files and builds dictionaries of plain Python values.
  A value is modelled by \<open>pyval\<close>; a dictionary keeps its insertion order, so it is an
  association list read with \<open>map_of\<close> and written with \<open>AList.update\<close>.
  Numbers are integers: the launcher files hold no other number, and every branch below
  treats a number only as "not a dictionary" or "not a string".
\<close>

datatype pyval =
    PNone
  | PBool bool
  | PInt int
  | PStr string
  | PList "pyval list"
  | PDict "(string \<times> pyval) list"

datatype exn_class =
    OSError
  | JSONDecodeError
  | AttributeError
  | TypeError
  | RuntimeError
  | OtherException

text \<open>An exception carries its class and the message \<open>str(e)\<close> prints.\<close>

datatype pyexn = PyExn exn_class string

fun exn_class_of :: "pyexn \<Rightarrow> exn_class" where
  "exn_class_of (PyExn c m) = c"

fun exn_str :: "pyexn \<Rightarrow> string" where
  "exn_str (PyExn c m) = m"

text \<open>
  \<open>try: body except (C1, C2) as e: handler\<close>. \<open>IOError\<close> is Python 3's alias of
  \<open>OSError\<close>.
\<close>

definition try_except ::
  "(pyexn + 'a) \<Rightarrow> exn_class list \<Rightarrow> (pyexn \<Rightarrow> pyexn + 'a) \<Rightarrow> pyexn + 'a" where
  "try_except body classes handler =
     (case body of
        Inl e \<Rightarrow> if exn_class_of e \<in> set classes then handler e else Inl e
      | Inr v \<Rightarrow> Inr v)"

text \<open>\<open>try: body except Exception as e: handler\<close>: every class above is caught.\<close>

definition try_except_Exception :: "(pyexn + 'a) \<Rightarrow> (pyexn \<Rightarrow> pyexn + 'a) \<Rightarrow> pyexn + 'a" where
  "try_except_Exception body handler =
     (case body of Inl e \<Rightarrow> handler e | Inr v \<Rightarrow> Inr v)"

definition pybind :: "(pyexn + 'a) \<Rightarrow> ('a \<Rightarrow> pyexn + 'b) \<Rightarrow> pyexn + 'b" where
  "pybind x f = (case x of Inl e \<Rightarrow> Inl e | Inr v \<Rightarrow> f v)"

fun py_type_name :: "pyval \<Rightarrow> string" where
  "py_type_name PNone = ''NoneType''"
| "py_type_name (PBool b) = ''bool''"
| "py_type_name (PInt i) = ''int''"
| "py_type_name (PStr s) = ''str''"
| "py_type_name (PList xs) = ''list''"
| "py_type_name (PDict kvs) = ''dict''"

text \<open>Truthiness, as \<open>if profile:\<close> tests it.\<close>

fun py_truthy :: "pyval \<Rightarrow> bool" where
  "py_truthy PNone = False"
| "py_truthy (PBool b) = b"
| "py_truthy (PInt i) = (i \<noteq> 0)"
| "py_truthy (PStr s) = (s \<noteq> [])"
| "py_truthy (PList xs) = (xs \<noteq> [])"
| "py_truthy (PDict kvs) = (kvs \<noteq> [])"

text \<open>\<open>obj.get(key, default)\<close>: only a dictionary has the method.\<close>

fun py_get :: "pyval \<Rightarrow> string \<Rightarrow> pyval \<Rightarrow> pyexn + pyval" where
  "py_get (PDict kvs) key dflt =
     Inr (case map_of kvs key of None \<Rightarrow> dflt | Some v \<Rightarrow> v)"
| "py_get v key dflt =
     Inl (PyExn AttributeError
       ([CHR 0x27] @ py_type_name v @ [CHR 0x27] @ '' object has no attribute '' @
        [CHR 0x27] @ ''get'' @ [CHR 0x27]))"

section \<open>Strings\<close>

text \<open>
  Text is a list of code points below 256. \<open>str.strip()\<close> removes the characters
  Python calls whitespace: 9 to 13, 28 to 32, 133 and 160.
\<close>

definition py_isspace :: "char \<Rightarrow> bool" where
  "py_isspace c =
     (let n = (of_char c :: nat)
      in (9 \<le> n \<and> n \<le> 13) \<or> (28 \<le> n \<and> n \<le> 32) \<or> n = 133 \<or> n = 160)"

definition strip :: "string \<Rightarrow> string" where
  "strip s = rev (dropWhile py_isspace (rev (dropWhile py_isspace s)))"

definition startswith :: "string \<Rightarrow> string \<Rightarrow> bool" where
  "startswith s pre = (take (length pre) s = pre)"

definition endswith :: "string \<Rightarrow> string \<Rightarrow> bool" where
  "endswith s suf = (length suf \<le> length s \<and> drop (length s - length suf) s = suf)"

text \<open>
  \<open>for line in f\<close> on a file opened in text mode: a line ends at \<open>\n\<close>, \<open>\r\<close> or
  \<open>\r\n\<close>. The terminator is left out here; every caller strips the line first.
\<close>

fun text_lines :: "string \<Rightarrow> string \<Rightarrow> string list" where
  "text_lines acc [] = (if acc = [] then [] else [rev acc])"
| "text_lines acc (c # cs) =
     (if c = CHR 0x0A then rev acc # text_lines [] cs
      else if c = CHR 0x0D then
        (case cs of
           [] \<Rightarrow> [rev acc]
         | d # ds \<Rightarrow> if d = CHR 0x0A then rev acc # text_lines [] ds
                    else rev acc # text_lines [] cs)
      else text_lines (c # acc) cs)"

text \<open>\<open>line.split('=', 1)\<close> on a line that holds an \<open>=\<close>: the text before and after the first.\<close>

definition split_once :: "char \<Rightarrow> string \<Rightarrow> string \<times> string" where
  "split_once sep s = (takeWhile (\<lambda>c. c \<noteq> sep) s, tl (dropWhile (\<lambda>c. c \<noteq> sep) s))"

fun split_on :: "char \<Rightarrow> string \<Rightarrow> string list" where
  "split_on sep [] = [[]]"
| "split_on sep (c # cs) =
     (if c = sep then [] # split_on sep cs
      else (case split_on sep cs of [] \<Rightarrow> [[c]] | w # ws \<Rightarrow> (c # w) # ws))"

fun join_with :: "string \<Rightarrow> string list \<Rightarrow> string" where
  "join_with sep [] = []"
| "join_with sep [x] = x"
| "join_with sep (x # y # ys) = x @ sep @ join_with sep (y # ys)"

section \<open>Paths\<close>

text \<open>
  A \<open>pathlib.Path\<close> of the POSIX flavour: whether it is absolute, and its parts. Parsing
  a string drops empty parts and \<open>.\<close>, and keeps \<open>..\<close>, which only the file system
  resolves. Joining an absolute string replaces the left operand.
\<close>

datatype ppath = PPath bool "string list"

fun is_absolute :: "ppath \<Rightarrow> bool" where
  "is_absolute (PPath a ps) = a"

fun parts :: "ppath \<Rightarrow> string list" where
  "parts (PPath a ps) = ps"

definition path_parts :: "string \<Rightarrow> string list" where
  "path_parts s = filter (\<lambda>c. c \<noteq> [] \<and> c \<noteq> ''.'') (split_on (CHR ''/'') s)"

definition Path :: "string \<Rightarrow> ppath" where
  "Path s = PPath (startswith s ''/'') (path_parts s)"

definition pjoin :: "ppath \<Rightarrow> string \<Rightarrow> ppath" where
  "pjoin p s =
     (if startswith s ''/'' then Path s
      else PPath (is_absolute p) (parts p @ path_parts s))"

text \<open>The child path \<open>iterdir\<close> and \<open>glob\<close> build from a directory entry's name.\<close>

definition child :: "ppath \<Rightarrow> string \<Rightarrow> ppath" where
  "child p n = PPath (is_absolute p) (parts p @ [n])"

definition path_str :: "ppath \<Rightarrow> string" where
  "path_str p =
     (if is_absolute p then ''/'' @ join_with ''/'' (parts p)
      else if parts p = [] then ''.'' else join_with ''/'' (parts p))"

definition path_name :: "ppath \<Rightarrow> string" where
  "path_name p = (if parts p = [] then [] else last (parts p))"

section \<open>The file system\<close>

text \<open>
  A tree of files (content, modification time) and directories (modification time,
  entries). An entry list is read as a map: the first binding of a name counts. System
  calls fail for structural reasons only (a missing entry, a directory where a file is
  needed); permissions, devices and symbolic links are outside the model.
\<close>

datatype node =
    File string int
  | Dir int "(string \<times> node) list"

fun node_mtime :: "node \<Rightarrow> int" where
  "node_mtime (File c t) = t"
| "node_mtime (Dir t es) = t"

fun node_at :: "node \<Rightarrow> string list \<Rightarrow> node option" where
  "node_at n [] = Some n"
| "node_at (File c t) (k # ks) = None"
| "node_at (Dir t es) (k # ks) =
     (case map_of es k of None \<Rightarrow> None | Some m \<Rightarrow> node_at m ks)"

text \<open>
  Resolution of a path from a directory, itself given by its (reversed) canonical parts:
  \<open>..\<close> steps from a directory to its parent (the root is its own parent), any other
  part steps to the entry of that name.
\<close>

fun resolve :: "node \<Rightarrow> string list \<Rightarrow> string list \<Rightarrow> string list option" where
  "resolve r acc [] = Some (rev acc)"
| "resolve r acc (k # ks) =
     (if k = ''..'' then
        (case node_at r (rev acc) of
           Some (Dir t es) \<Rightarrow> resolve r (tl acc) ks
         | _ \<Rightarrow> None)
      else
        (case node_at r (rev acc @ [k]) of
           None \<Rightarrow> None
         | Some m \<Rightarrow> resolve r (k # acc) ks))"

text \<open>
  What the process sees: the file system, the working directory (canonical parts), the
  clock, and the library calls whose results the package only passes on
  (\<open>platform.system()\<close>, \<open>Path.home()\<close>, \<open>shutil.which("java")\<close>, \<open>json.loads\<close>, the
  last with \<open>None\<close> for a \<open>JSONDecodeError\<close>).
\<close>

record world =
  root :: node
  cwd :: "string list"
  now :: int
  platform_system :: string
  home :: "pyexn + ppath"
  which_java :: "string option"
  json_loads :: "string \<Rightarrow> pyval option"

definition canon :: "world \<Rightarrow> ppath \<Rightarrow> string list option" where
  "canon w p = resolve (root w) (if is_absolute p then [] else rev (cwd w)) (parts p)"

definition lookup :: "world \<Rightarrow> ppath \<Rightarrow> node option" where
  "lookup w p = (case canon w p of None \<Rightarrow> None | Some cp \<Rightarrow> node_at (root w) cp)"

definition path_exists :: "world \<Rightarrow> ppath \<Rightarrow> bool" where
  "path_exists w p = (lookup w p \<noteq> None)"

definition path_is_dir :: "world \<Rightarrow> ppath \<Rightarrow> bool" where
  "path_is_dir w p = (case lookup w p of Some (Dir t es) \<Rightarrow> True | _ \<Rightarrow> False)"

definition errno_msg :: "string \<Rightarrow> ppath \<Rightarrow> string" where
  "errno_msg what p = what @ '': '' @ [CHR 0x27] @ path_str p @ [CHR 0x27]"

text \<open>The names a directory lists: each once, without the special entries.\<close>

definition dir_names :: "(string \<times> node) list \<Rightarrow> string list" where
  "dir_names es = filter (\<lambda>n. n \<noteq> ''.'' \<and> n \<noteq> ''..'') (remdups (map fst es))"

definition iterdir :: "world \<Rightarrow> ppath \<Rightarrow> pyexn + ppath list" where
  "iterdir w p =
     (case lookup w p of
        None \<Rightarrow> Inl (PyExn OSError (errno_msg ''[Errno 2] No such file or directory'' p))
      | Some (File c t) \<Rightarrow> Inl (PyExn OSError (errno_msg ''[Errno 20] Not a directory'' p))
      | Some (Dir t es) \<Rightarrow> Inr (map (child p) (dir_names es)))"

text \<open>
  \<open>p.glob("*.log")\<close>: the entries of a directory whose name ends in \<open>.log\<close>; nothing
  when \<open>p\<close> is not a directory.
\<close>

definition is_log_name :: "string \<Rightarrow> bool" where
  "is_log_name n = endswith n ''.log''"

definition glob_log :: "world \<Rightarrow> ppath \<Rightarrow> ppath list" where
  "glob_log w p =
     (case lookup w p of
        Some (Dir t es) \<Rightarrow> map (child p) (filter is_log_name (dir_names es))
      | _ \<Rightarrow> [])"

text \<open>\<open>open(p, 'r').read()\<close> and \<open>p.read_text()\<close>.\<close>

definition read_text :: "world \<Rightarrow> ppath \<Rightarrow> pyexn + string" where
  "read_text w p =
     (case lookup w p of
        None \<Rightarrow> Inl (PyExn OSError (errno_msg ''[Errno 2] No such file or directory'' p))
      | Some (Dir t es) \<Rightarrow> Inl (PyExn OSError (errno_msg ''[Errno 21] Is a directory'' p))
      | Some (File c t) \<Rightarrow> Inr c)"

text \<open>\<open>p.stat().st_mtime\<close>.\<close>

definition st_mtime :: "world \<Rightarrow> ppath \<Rightarrow> pyexn + int" where
  "st_mtime w p =
     (case lookup w p of
        None \<Rightarrow> Inl (PyExn OSError (errno_msg ''[Errno 2] No such file or directory'' p))
      | Some n \<Rightarrow> Inr (node_mtime n))"

text \<open>
  Removing the entry at a canonical path; the directory that held it gets the time
  \<open>t\<close>.
\<close>

fun remove_at :: "int \<Rightarrow> node \<Rightarrow> string list \<Rightarrow> node" where
  "remove_at t n [] = n"
| "remove_at t (File c m) (k # ks) = File c m"
| "remove_at t (Dir m es) [k] = Dir t (filter (\<lambda>e. fst e \<noteq> k) es)"
| "remove_at t (Dir m es) (k # k' # ks) =
     Dir m (map (\<lambda>e. if fst e = k then (fst e, remove_at t (snd e) (k' # ks)) else e) es)"

text \<open>\<open>p.unlink()\<close>: a file is removed, a directory is refused.\<close>

definition unlink :: "world \<Rightarrow> ppath \<Rightarrow> pyexn + world" where
  "unlink w p =
     (case canon w p of
        None \<Rightarrow> Inl (PyExn OSError (errno_msg ''[Errno 2] No such file or directory'' p))
      | Some cp \<Rightarrow>
          (case node_at (root w) cp of
             Some (File c t) \<Rightarrow> Inr (w\<lparr>root := remove_at (now w) (root w) cp\<rparr>)
           | _ \<Rightarrow> Inl (PyExn OSError (errno_msg ''[Errno 21] Is a directory'' p))))"

section \<open>Data of the launcher package\<close>

text \<open>
  \<open>LauncherInfo\<close> of \<open>base.py\<close>; the fields carry the prefix \<open>info_\<close>. An instance is the
  dictionary the adapters build, with the keys \<open>name\<close>, \<open>version\<close>, \<open>path\<close>, \<open>type\<close>
  and \<open>launcher\<close>.
\<close>

record LauncherInfo =
  info_name :: string
  info_version :: pyval
  info_path :: ppath
  info_java_executable :: "ppath option"
  info_launcher_type :: string

type_synonym instance_dict = "(string \<times> pyval) list"

text \<open>
  An object of a subclass of \<open>BaseLauncher\<close>: its path and its methods, each run in a
  world. \<open>clear_logs\<close> returns the world it leaves.
\<close>

record launcher =
  launcher_path :: ppath
  detect :: "world \<Rightarrow> pyexn + bool"
  get_launcher_info :: "world \<Rightarrow> pyexn + LauncherInfo"
  get_instances :: "world \<Rightarrow> pyexn + instance_dict list"
  get_logs :: "world \<Rightarrow> string \<Rightarrow> pyexn + string option"
  clear_logs :: "world \<Rightarrow> string \<Rightarrow> (pyexn + bool) \<times> world"
  get_instance_logs_directory :: "world \<Rightarrow> string \<Rightarrow> pyexn + ppath option"

text \<open>\<open>_find_java_executable\<close>, the same static method in the three classes.\<close>

definition find_java_executable :: "world \<Rightarrow> ppath option" where
  "find_java_executable w =
     (case which_java w of
        None \<Rightarrow> None
      | Some java_path \<Rightarrow> if java_path \<noteq> [] then Some (Path java_path) else None)"

text \<open>\<open>json.load(f)\<close> on an opened file: the read, then the parse.\<close>

definition json_load :: "world \<Rightarrow> ppath \<Rightarrow> pyexn + pyval" where
  "json_load w p =
     pybind (read_text w p) (\<lambda>text.
       case json_loads w text of
         None \<Rightarrow> Inl (PyExn JSONDecodeError ''Expecting value'')
       | Some v \<Rightarrow> Inr v)"

text \<open>\<open>Path(v)\<close> on a Python value: only a string is a path.\<close>

definition Path_of :: "pyval \<Rightarrow> pyexn + ppath" where
  "Path_of v =
     (case v of
        PStr s \<Rightarrow> Inr (Path s)
      | _ \<Rightarrow> Inl (PyExn TypeError
                (''expected str, bytes or os.PathLike object, not '' @ py_type_name v)))"

text \<open>\<open>p / v\<close> on a Python value.\<close>

definition pjoin_val :: "ppath \<Rightarrow> pyval \<Rightarrow> pyexn + ppath" where
  "pjoin_val p v =
     (case v of
        PStr s \<Rightarrow> Inr (pjoin p s)
      | _ \<Rightarrow> Inl (PyExn TypeError
                (''unsupported operand type(s) for /: '' @ [CHR 0x27] @ ''PosixPath'' @ [CHR 0x27] @
                 '' and '' @ [CHR 0x27] @ py_type_name v @ [CHR 0x27])))"

text \<open>
  The loop \<open>for log_file in logs_dir.glob("*.log"): log_file.unlink()\<close>: the matches are
  listed first, then removed one by one; the first failure stops the loop and leaves the
  earlier removals done.
\<close>

fun unlink_each :: "world \<Rightarrow> ppath list \<Rightarrow> (pyexn + unit) \<times> world" where
  "unlink_each w [] = (Inr (), w)"
| "unlink_each w (p # ps) =
     (case unlink w p of
        Inl e \<Rightarrow> (Inl e, w)
      | Inr w' \<Rightarrow> unlink_each w' ps)"

fun mapM_exn :: "('a \<Rightarrow> pyexn + 'b) \<Rightarrow> 'a list \<Rightarrow> pyexn + 'b list" where
  "mapM_exn f [] = Inr []"
| "mapM_exn f (x # xs) =
     (case f x of
        Inl e \<Rightarrow> Inl e
      | Inr y \<Rightarrow> (case mapM_exn f xs of Inl e \<Rightarrow> Inl e | Inr ys \<Rightarrow> Inr (y # ys)))"

text \<open>
  \<open>sorted(ps, key=lambda x: x.stat().st_mtime, reverse=True)\<close>: a stable sort, newest
  first.
\<close>

definition sorted_newest_first :: "world \<Rightarrow> ppath list \<Rightarrow> pyexn + ppath list" where
  "sorted_newest_first w ps =
     pybind (mapM_exn (st_mtime w) ps) (\<lambda>ts.
       Inr (map snd (sort_key (\<lambda>tp. - fst tp) (zip ts ps))))"

section \<open>vanilla\_launcher.py\<close>

definition VanillaLauncher_get_default_path :: "world \<Rightarrow> pyexn + ppath" where
  "VanillaLauncher_get_default_path w =
     (if platform_system w = ''Windows'' then
        pybind (home w) (\<lambda>h. Inr (pjoin (pjoin (pjoin h ''AppData'') ''Roaming'') ''.minecraft''))
      else if platform_system w = ''Darwin'' then
        pybind (home w) (\<lambda>h.
          Inr (pjoin (pjoin (pjoin h ''Library'') ''Application Support'') ''minecraft''))
      else pybind (home w) (\<lambda>h. Inr (pjoin h ''.minecraft'')))"

definition VanillaLauncher_detect :: "ppath \<Rightarrow> world \<Rightarrow> pyexn + bool" where
  "VanillaLauncher_detect lp w = Inr (path_exists w (pjoin lp ''launcher_profiles.json''))"

definition VanillaLauncher_get_launcher_info :: "ppath \<Rightarrow> world \<Rightarrow> pyexn + LauncherInfo" where
  "VanillaLauncher_get_launcher_info lp w =
     (let profiles_file = pjoin lp ''launcher_profiles.json'' in
      pybind
        (if path_exists w profiles_file then
           try_except
             (pybind (json_load w profiles_file) (\<lambda>data.
              pybind (py_get data ''launcherVersion'' (PDict [])) (\<lambda>lv.
              py_get lv ''name'' PNone)))
             [JSONDecodeError, OSError]
             (\<lambda>e. Inr PNone)
         else Inr PNone)
        (\<lambda>version.
           Inr \<lparr>info_name = ''Minecraft Launcher'', info_version = version, info_path = lp,
                info_java_executable = find_java_executable w,
                info_launcher_type = ''vanilla''\<rparr>))"

text \<open>
  \<open>Path(obj.get(key, default))\<close> with a path as the default: the entry when the
  dictionary has one, which must then be a string.
\<close>

definition get_path_or :: "pyval \<Rightarrow> string \<Rightarrow> ppath \<Rightarrow> pyexn + ppath" where
  "get_path_or obj key dflt =
     (case obj of
        PDict kvs \<Rightarrow> (case map_of kvs key of None \<Rightarrow> Inr dflt | Some v \<Rightarrow> Path_of v)
      | _ \<Rightarrow> pybind (py_get obj key PNone) (\<lambda>v. Inr dflt))"

text \<open>\<open>obj.items()\<close>.\<close>

definition py_items :: "pyval \<Rightarrow> pyexn + (string \<times> pyval) list" where
  "py_items obj =
     (case obj of
        PDict kvs \<Rightarrow> Inr kvs
      | _ \<Rightarrow> Inl (PyExn AttributeError
                ([CHR 0x27] @ py_type_name obj @ [CHR 0x27] @ '' object has no attribute '' @
                 [CHR 0x27] @ ''items'' @ [CHR 0x27])))"

text \<open>
  One round of the loop over \<open>profiles.items()\<close> in \<open>get_instances\<close>. The default of
  \<open>gameDir\<close> is an argument of \<open>get\<close>, so it is evaluated for every profile.
\<close>

definition VanillaLauncher_profile_instance ::
  "ppath \<Rightarrow> string \<times> pyval \<Rightarrow> pyexn + instance_dict" where
  "VanillaLauncher_profile_instance lp item =
     (let profile_name = fst item; profile_data = snd item in
      pybind (py_get profile_data ''lastVersionId'' (PStr ''Unknown'')) (\<lambda>version.
      pybind (pjoin_val (pjoin lp ''versions'') version) (\<lambda>dflt.
      pybind (get_path_or profile_data ''gameDir'' dflt) (\<lambda>game_dir.
        Inr [(''name'', PStr profile_name), (''version'', version),
             (''path'', PStr (path_str game_dir)), (''type'', PStr ''profile''),
             (''launcher'', PStr ''vanilla'')]))))"

text \<open>
  The handler returns the list built so far; the two classes it catches are raised only
  by the read and the parse, before the first profile.
\<close>

definition VanillaLauncher_get_instances :: "ppath \<Rightarrow> world \<Rightarrow> pyexn + instance_dict list" where
  "VanillaLauncher_get_instances lp w =
     (let profiles_file = pjoin lp ''launcher_profiles.json'' in
      if \<not> path_exists w profiles_file then Inr []
      else
        try_except
          (pybind (json_load w profiles_file) (\<lambda>data.
           pybind (py_get data ''profiles'' (PDict [])) (\<lambda>profiles.
           pybind (py_items profiles) (\<lambda>items.
             mapM_exn (VanillaLauncher_profile_instance lp) items))))
          [JSONDecodeError, OSError]
          (\<lambda>e. Inr []))"

definition VanillaLauncher_get_instance_logs_directory ::
  "ppath \<Rightarrow> world \<Rightarrow> string \<Rightarrow> pyexn + ppath option" where
  "VanillaLauncher_get_instance_logs_directory lp w instance_name =
     (let profiles_file = pjoin lp ''launcher_profiles.json'' in
      if \<not> path_exists w profiles_file then Inr None
      else
        try_except
          (pybind (json_load w profiles_file) (\<lambda>data.
           pybind (py_get data ''profiles'' (PDict [])) (\<lambda>profiles.
           pybind (py_get profiles instance_name PNone) (\<lambda>profile.
             if py_truthy profile then
               pybind (get_path_or profile ''gameDir'' lp) (\<lambda>game_dir.
                 let logs_dir = pjoin game_dir ''logs'' in
                 Inr (if path_exists w logs_dir then Some logs_dir else None))
             else Inr None))))
          [JSONDecodeError, OSError]
          (\<lambda>e. Inr None))"

text \<open>\<open>open(p).read()\<close> under \<open>except IOError as e: return f"Error reading log: {e}"\<close>.\<close>

definition read_log :: "world \<Rightarrow> ppath \<Rightarrow> pyexn + string option" where
  "read_log w p =
     try_except
       (pybind (read_text w p) (\<lambda>text. Inr (Some text)))
       [OSError]
       (\<lambda>e. Inr (Some (''Error reading log: '' @ exn_str e)))"

definition VanillaLauncher_get_logs :: "ppath \<Rightarrow> world \<Rightarrow> string \<Rightarrow> pyexn + string option" where
  "VanillaLauncher_get_logs lp w instance_name =
     pybind (VanillaLauncher_get_instance_logs_directory lp w instance_name) (\<lambda>logs_dir.
       case logs_dir of
         None \<Rightarrow> Inr None
       | Some d \<Rightarrow>
           if \<not> path_exists w d then Inr None
           else
             pybind (sorted_newest_first w (glob_log w d)) (\<lambda>log_files.
               case log_files of
                 [] \<Rightarrow> Inr None
               | f # fs \<Rightarrow> read_log w f))"

text \<open>
  The body the three \<open>clear_logs\<close> methods share once the logs directory is resolved: the
  existence test, the loop, and \<open>except (IOError, OSError): return False\<close>.
\<close>

definition clear_logs_in :: "world \<Rightarrow> ppath option \<Rightarrow> (pyexn + bool) \<times> world" where
  "clear_logs_in w logs_dir =
     (case logs_dir of
        None \<Rightarrow> (Inr False, w)
      | Some d \<Rightarrow>
          if \<not> path_exists w d then (Inr False, w)
          else
            (case unlink_each w (glob_log w d) of
               (Inl e, w') \<Rightarrow>
                 if exn_class_of e \<in> set [OSError, OSError] then (Inr False, w') else (Inl e, w')
             | (Inr u, w') \<Rightarrow> (Inr True, w')))"

definition VanillaLauncher_clear_logs ::
  "ppath \<Rightarrow> world \<Rightarrow> string \<Rightarrow> (pyexn + bool) \<times> world" where
  "VanillaLauncher_clear_logs lp w instance_name =
     (case VanillaLauncher_get_instance_logs_directory lp w instance_name of
        Inl e \<Rightarrow> (Inl e, w)
      | Inr logs_dir \<Rightarrow> clear_logs_in w logs_dir)"

text \<open>The object \<open>VanillaLauncher(launcher_path)\<close>.\<close>

definition VanillaLauncher :: "ppath \<Rightarrow> launcher" where
  "VanillaLauncher lp =
     \<lparr>launcher_path = lp,
      detect = VanillaLauncher_detect lp,
      get_launcher_info = VanillaLauncher_get_launcher_info lp,
      get_instances = VanillaLauncher_get_instances lp,
      get_logs = VanillaLauncher_get_logs lp,
      clear_logs = VanillaLauncher_clear_logs lp,
      get_instance_logs_directory = VanillaLauncher_get_instance_logs_directory lp\<rparr>"

text \<open>\<open>VanillaLauncher()\<close>, as the manager calls the class: the default path.\<close>

definition VanillaLauncher_init :: "world \<Rightarrow> pyexn + launcher" where
  "VanillaLauncher_init w =
     pybind (VanillaLauncher_get_default_path w) (\<lambda>lp. Inr (VanillaLauncher lp))"

section \<open>multimc.py\<close>

text \<open>
  On Windows the candidates \<open>C:\MultiMC\<close> and \<open>C:\Program Files\MultiMC\<close> are paths on
  the drive \<open>C:\<close>, here the directory \<open>C:\<close> under the root.
\<close>

definition MultiMCLauncher_get_default_path :: "world \<Rightarrow> pyexn + ppath" where
  "MultiMCLauncher_get_default_path w =
     (if platform_system w = ''Windows'' then
        pybind (home w) (\<lambda>h.
          let candidates =
                [pjoin (pjoin (pjoin h ''AppData'') ''Local'') ''MultiMC'',
                 PPath True [''C:'', ''MultiMC''],
                 pjoin (PPath True [''C:'', ''Program Files'']) ''MultiMC'']
          in case find (path_exists w) candidates of
               Some candidate \<Rightarrow> Inr candidate
             | None \<Rightarrow> Inr (pjoin (pjoin (pjoin h ''AppData'') ''Local'') ''MultiMC''))
      else if platform_system w = ''Darwin'' then
        pybind (home w) (\<lambda>h.
          Inr (pjoin (pjoin (pjoin (pjoin h ''Applications'') ''MultiMC.app'') ''Contents'')
                 ''MacOS''))
      else pybind (home w) (\<lambda>h. Inr (pjoin (pjoin (pjoin h ''.local'') ''share'') ''multimc'')))"

definition MultiMCLauncher_detect :: "ppath \<Rightarrow> world \<Rightarrow> pyexn + bool" where
  "MultiMCLauncher_detect lp w = Inr (path_exists w (pjoin lp ''instances''))"

text \<open>
  The version lookup of \<open>get_launcher_info\<close>, for the version file's name:
  \<open>version.txt\<close> in MultiMC, \<open>prismlauncher_version.txt\<close> in Prism.
\<close>

definition read_version_file :: "ppath \<Rightarrow> world \<Rightarrow> string \<Rightarrow> pyexn + pyval" where
  "read_version_file lp w file_name =
     (let version_file = pjoin lp file_name in
      if path_exists w version_file then
        try_except
          (pybind (read_text w version_file) (\<lambda>text. Inr (PStr (strip text))))
          [OSError]
          (\<lambda>e. Inr PNone)
      else Inr PNone)"

definition MultiMCLauncher_get_launcher_info :: "ppath \<Rightarrow> world \<Rightarrow> pyexn + LauncherInfo" where
  "MultiMCLauncher_get_launcher_info lp w =
     pybind (read_version_file lp w ''version.txt'') (\<lambda>version.
       Inr \<lparr>info_name = ''MultiMC'', info_version = version, info_path = lp,
            info_java_executable = find_java_executable w,
            info_launcher_type = ''multimc''\<rparr>)"

text \<open>
  The loop over the lines of \<open>instance.cfg\<close>. \<open>cfg_line\<close> is its body on one line: a
  stripped line with an \<open>=\<close> that does not start with \<open>[\<close> gives the pair
  \<open>(key.strip(), value.strip())\<close>, and the loop sets \<open>config[key] = value\<close>.
\<close>

definition cfg_line :: "string \<Rightarrow> (string \<times> string) option" where
  "cfg_line raw =
     (let line = strip raw in
      if CHR ''='' \<in> set line \<and> \<not> startswith line ''[''
      then (let kv = split_once (CHR ''='') line in Some (strip (fst kv), strip (snd kv)))
      else None)"

fun parse_instance_cfg :: "(string \<times> string) list \<Rightarrow> string list \<Rightarrow> (string \<times> string) list" where
  "parse_instance_cfg config [] = config"
| "parse_instance_cfg config (raw # rest) =
     (case cfg_line raw of
        None \<Rightarrow> parse_instance_cfg config rest
      | Some kv \<Rightarrow> parse_instance_cfg (AList.update (fst kv) (snd kv) config) rest)"

text \<open>
  One round of the loop over \<open>instances_dir.iterdir()\<close>: \<open>None\<close> is \<open>continue\<close>, also
  under \<open>except IOError\<close>.
\<close>

definition MultiMCLauncher_instance :: "world \<Rightarrow> ppath \<Rightarrow> instance_dict option" where
  "MultiMCLauncher_instance w instance_path =
     (if \<not> path_is_dir w instance_path then None
      else
        (let instance_cfg = pjoin instance_path ''instance.cfg'' in
         if \<not> path_exists w instance_cfg then None
         else
           (case read_text w instance_cfg of
              Inl e \<Rightarrow> None
            | Inr text \<Rightarrow>
                (let config = parse_instance_cfg [] (text_lines [] text) in
                 Some [(''name'', PStr (path_name instance_path)),
                       (''version'',
                        PStr (case map_of config ''InstanceType'' of
                                None \<Rightarrow> ''Unknown'' | Some v \<Rightarrow> v)),
                       (''path'', PStr (path_str instance_path)),
                       (''type'', PStr ''instance''),
                       (''launcher'', PStr ''multimc'')]))))"

definition MultiMCLauncher_get_instances :: "ppath \<Rightarrow> world \<Rightarrow> pyexn + instance_dict list" where
  "MultiMCLauncher_get_instances lp w =
     (let instances_dir = pjoin lp ''instances'' in
      if \<not> path_exists w instances_dir then Inr []
      else
        pybind (iterdir w instances_dir) (\<lambda>children.
          Inr (List.map_filter (MultiMCLauncher_instance w) children)))"

definition MultiMCLauncher_get_instance_logs_directory ::
  "ppath \<Rightarrow> world \<Rightarrow> string \<Rightarrow> pyexn + ppath option" where
  "MultiMCLauncher_get_instance_logs_directory lp w instance_name =
     (let instance_path = pjoin (pjoin lp ''instances'') instance_name in
      if \<not> path_exists w instance_path then Inr None
      else
        (let logs_dir = pjoin (pjoin instance_path ''.minecraft'') ''logs'' in
         Inr (if path_exists w logs_dir then Some logs_dir else None)))"

text \<open>\<open>latest.log\<close> of a logs directory, as MultiMC and CurseForge read it.\<close>

definition read_latest_log :: "world \<Rightarrow> ppath option \<Rightarrow> pyexn + string option" where
  "read_latest_log w logs_dir =
     (case logs_dir of
        None \<Rightarrow> Inr None
      | Some d \<Rightarrow>
          if \<not> path_exists w d then Inr None
          else
            (let latest_log = pjoin d ''latest.log'' in
             if path_exists w latest_log then read_log w latest_log else Inr None))"

definition MultiMCLauncher_get_logs :: "ppath \<Rightarrow> world \<Rightarrow> string \<Rightarrow> pyexn + string option" where
  "MultiMCLauncher_get_logs lp w instance_name =
     pybind (MultiMCLauncher_get_instance_logs_directory lp w instance_name) (read_latest_log w)"

definition MultiMCLauncher_clear_logs ::
  "ppath \<Rightarrow> world \<Rightarrow> string \<Rightarrow> (pyexn + bool) \<times> world" where
  "MultiMCLauncher_clear_logs lp w instance_name =
     (case MultiMCLauncher_get_instance_logs_directory lp w instance_name of
        Inl e \<Rightarrow> (Inl e, w)
      | Inr logs_dir \<Rightarrow> clear_logs_in w logs_dir)"

definition MultiMCLauncher :: "ppath \<Rightarrow> launcher" where
  "MultiMCLauncher lp =
     \<lparr>launcher_path = lp,
      detect = MultiMCLauncher_detect lp,
      get_launcher_info = MultiMCLauncher_get_launcher_info lp,
      get_instances = MultiMCLauncher_get_instances lp,
      get_logs = MultiMCLauncher_get_logs lp,
      clear_logs = MultiMCLauncher_clear_logs lp,
      get_instance_logs_directory = MultiMCLauncher_get_instance_logs_directory lp\<rparr>"

definition MultiMCLauncher_init :: "world \<Rightarrow> pyexn + launcher" where
  "MultiMCLauncher_init w =
     pybind (MultiMCLauncher_get_default_path w) (\<lambda>lp. Inr (MultiMCLauncher lp))"

subsection \<open>PrismLauncherHandler, a subclass of MultiMCLauncher\<close>

definition PrismLauncherHandler_get_default_path :: "world \<Rightarrow> pyexn + ppath" where
  "PrismLauncherHandler_get_default_path w =
     (if platform_system w = ''Windows'' then
        pybind (home w) (\<lambda>h.
          let candidates =
                [pjoin (pjoin (pjoin h ''AppData'') ''Local'') ''Prism Launcher'',
                 PPath True [''C:'', ''Prism Launcher''],
                 pjoin (PPath True [''C:'', ''Program Files'']) ''Prism Launcher'']
          in case find (path_exists w) candidates of
               Some candidate \<Rightarrow> Inr candidate
             | None \<Rightarrow> Inr (pjoin (pjoin (pjoin h ''AppData'') ''Local'') ''Prism Launcher''))
      else if platform_system w = ''Darwin'' then
        pybind (home w) (\<lambda>h.
          Inr (pjoin (pjoin (pjoin (pjoin h ''Applications'') ''Prism Launcher.app'') ''Contents'')
                 ''MacOS''))
      else pybind (home w) (\<lambda>h. Inr (pjoin (pjoin (pjoin h ''.local'') ''share'') ''PrismLauncher'')))"

definition PrismLauncherHandler_detect :: "ppath \<Rightarrow> world \<Rightarrow> pyexn + bool" where
  "PrismLauncherHandler_detect lp w = Inr (path_exists w (pjoin lp ''instances''))"

definition PrismLauncherHandler_get_launcher_info :: "ppath \<Rightarrow> world \<Rightarrow> pyexn + LauncherInfo" where
  "PrismLauncherHandler_get_launcher_info lp w =
     pybind (read_version_file lp w ''prismlauncher_version.txt'') (\<lambda>version.
       Inr \<lparr>info_name = ''Prism Launcher'', info_version = version, info_path = lp,
            info_java_executable = find_java_executable w,
            info_launcher_type = ''prism''\<rparr>)"

text \<open>The methods the subclass does not define are MultiMC's.\<close>

definition PrismLauncherHandler :: "ppath \<Rightarrow> launcher" where
  "PrismLauncherHandler lp =
     (MultiMCLauncher lp)
       \<lparr>detect := PrismLauncherHandler_detect lp,
        get_launcher_info := PrismLauncherHandler_get_launcher_info lp\<rparr>"

definition PrismLauncherHandler_init :: "world \<Rightarrow> pyexn + launcher" where
  "PrismLauncherHandler_init w =
     pybind (PrismLauncherHandler_get_default_path w) (\<lambda>lp. Inr (PrismLauncherHandler lp))"

section \<open>curseforge.py\<close>

definition CurseForgeLauncher_get_default_path :: "world \<Rightarrow> pyexn + ppath" where
  "CurseForgeLauncher_get_default_path w =
     (if platform_system w = ''Windows'' then
        pybind (home w) (\<lambda>h. Inr (pjoin (pjoin (pjoin h ''AppData'') ''Local'') ''CurseForge''))
      else if platform_system w = ''Darwin'' then
        pybind (home w) (\<lambda>h.
          Inr (pjoin (pjoin (pjoin h ''Library'') ''Application Support'') ''CurseForge''))
      else pybind (home w) (\<lambda>h. Inr (pjoin h ''.curseforge'')))"

definition CurseForgeLauncher_detect :: "ppath \<Rightarrow> world \<Rightarrow> pyexn + bool" where
  "CurseForgeLauncher_detect lp w = Inr (path_exists w (pjoin lp ''Instances''))"

definition CurseForgeLauncher_get_launcher_info :: "ppath \<Rightarrow> world \<Rightarrow> pyexn + LauncherInfo" where
  "CurseForgeLauncher_get_launcher_info lp w =
     Inr \<lparr>info_name = ''CurseForge Launcher'', info_version = PNone, info_path = lp,
          info_java_executable = find_java_executable w,
          info_launcher_type = ''curseforge''\<rparr>"

text \<open>
  The version a manifest gives:
  \<open>manifest.get("minecraft", {}).get("version", "Unknown")\<close> under
  \<open>except (json.JSONDecodeError, IOError)\<close>.
\<close>

definition CurseForgeLauncher_manifest_version :: "world \<Rightarrow> ppath \<Rightarrow> pyexn + pyval" where
  "CurseForgeLauncher_manifest_version w manifest_file =
     (if path_exists w manifest_file then
        try_except
          (pybind (json_load w manifest_file) (\<lambda>manifest.
           pybind (py_get manifest ''minecraft'' (PDict [])) (\<lambda>minecraft.
           py_get minecraft ''version'' (PStr ''Unknown''))))
          [JSONDecodeError, OSError]
          (\<lambda>e. Inr (PStr ''Unknown''))
      else Inr (PStr ''Unknown''))"

text \<open>One round of the loop over \<open>instances_dir.iterdir()\<close>: \<open>None\<close> is \<open>continue\<close>.\<close>

definition CurseForgeLauncher_instance :: "world \<Rightarrow> ppath \<Rightarrow> pyexn + instance_dict option" where
  "CurseForgeLauncher_instance w instance_path =
     (if \<not> path_is_dir w instance_path then Inr None
      else
        (let manifest_file = pjoin instance_path ''manifest.json'';
             instance_info =
               [(''name'', PStr (path_name instance_path)),
                (''path'', PStr (path_str instance_path)),
                (''type'', PStr ''modpack''),
                (''launcher'', PStr ''curseforge'')]
         in pybind (CurseForgeLauncher_manifest_version w manifest_file) (\<lambda>version.
              Inr (Some (AList.update ''version'' version instance_info)))))"

definition CurseForgeLauncher_get_instances :: "ppath \<Rightarrow> world \<Rightarrow> pyexn + instance_dict list" where
  "CurseForgeLauncher_get_instances lp w =
     (let instances_dir = pjoin lp ''Instances'' in
      if \<not> path_exists w instances_dir then Inr []
      else
        pybind (iterdir w instances_dir) (\<lambda>children.
        pybind (mapM_exn (CurseForgeLauncher_instance w) children) (\<lambda>found.
          Inr (List.map_filter (\<lambda>x. x) found))))"

definition CurseForgeLauncher_get_instance_logs_directory ::
  "ppath \<Rightarrow> world \<Rightarrow> string \<Rightarrow> pyexn + ppath option" where
  "CurseForgeLauncher_get_instance_logs_directory lp w instance_name =
     (let instance_path = pjoin (pjoin lp ''Instances'') instance_name in
      if \<not> path_exists w instance_path then Inr None
      else
        (let logs_dir = pjoin (pjoin instance_path ''.minecraft'') ''logs'';
             logs_dir = (if \<not> path_exists w logs_dir then pjoin instance_path ''logs''
                         else logs_dir)
         in Inr (if path_exists w logs_dir then Some logs_dir else None)))"

definition CurseForgeLauncher_get_logs :: "ppath \<Rightarrow> world \<Rightarrow> string \<Rightarrow> pyexn + string option" where
  "CurseForgeLauncher_get_logs lp w instance_name =
     pybind (CurseForgeLauncher_get_instance_logs_directory lp w instance_name) (read_latest_log w)"

definition CurseForgeLauncher_clear_logs ::
  "ppath \<Rightarrow> world \<Rightarrow> string \<Rightarrow> (pyexn + bool) \<times> world" where
  "CurseForgeLauncher_clear_logs lp w instance_name =
     (case CurseForgeLauncher_get_instance_logs_directory lp w instance_name of
        Inl e \<Rightarrow> (Inl e, w)
      | Inr logs_dir \<Rightarrow> clear_logs_in w logs_dir)"

definition CurseForgeLauncher :: "ppath \<Rightarrow> launcher" where
  "CurseForgeLauncher lp =
     \<lparr>launcher_path = lp,
      detect = CurseForgeLauncher_detect lp,
      get_launcher_info = CurseForgeLauncher_get_launcher_info lp,
      get_instances = CurseForgeLauncher_get_instances lp,
      get_logs = CurseForgeLauncher_get_logs lp,
      clear_logs = CurseForgeLauncher_clear_logs lp,
      get_instance_logs_directory = CurseForgeLauncher_get_instance_logs_directory lp\<rparr>"

definition CurseForgeLauncher_init :: "world \<Rightarrow> pyexn + launcher" where
  "CurseForgeLauncher_init w =
     pybind (CurseForgeLauncher_get_default_path w) (\<lambda>lp. Inr (CurseForgeLauncher lp))"

section \<open>manager.py\<close>

text \<open>
  The manager's state is the dictionary \<open>detected_launchers\<close>. What the methods print is
  left out. The table of supported launchers pairs a name with a class, called without
  arguments; the methods read it through \<open>self\<close>, so the loop takes it as an argument.
\<close>

record LauncherManager =
  detected_launchers :: "(string \<times> launcher) list"

type_synonym launcher_table = "(string \<times> (world \<Rightarrow> pyexn + launcher)) list"

definition SUPPORTED_LAUNCHERS :: launcher_table where
  "SUPPORTED_LAUNCHERS =
     [(''vanilla'', VanillaLauncher_init),
      (''multimc'', MultiMCLauncher_init),
      (''prism'', PrismLauncherHandler_init),
      (''curseforge'', CurseForgeLauncher_init)]"

fun detect_all_launchers ::
  "launcher_table \<Rightarrow> world \<Rightarrow> (string \<times> launcher) list \<Rightarrow> pyexn + (string \<times> launcher) list" where
  "detect_all_launchers [] w detected = Inr detected"
| "detect_all_launchers (entry # rest) w detected =
     (let launcher_name = fst entry; launcher_class = snd entry in
      pybind
        (try_except_Exception
           (pybind (launcher_class w) (\<lambda>launcher.
            pybind (detect launcher w) (\<lambda>found.
              Inr (if found then AList.update launcher_name launcher detected else detected))))
           (\<lambda>e. Inr detected))
        (\<lambda>detected'. detect_all_launchers rest w detected'))"

definition LauncherManager_init_with :: "launcher_table \<Rightarrow> world \<Rightarrow> pyexn + LauncherManager" where
  "LauncherManager_init_with table w =
     pybind (detect_all_launchers table w []) (\<lambda>detected.
       Inr \<lparr>detected_launchers = detected\<rparr>)"

definition LauncherManager_init :: "world \<Rightarrow> pyexn + LauncherManager" where
  "LauncherManager_init w = LauncherManager_init_with SUPPORTED_LAUNCHERS w"

definition get_available_launchers :: "LauncherManager \<Rightarrow> string list" where
  "get_available_launchers m = map fst (detected_launchers m)"

definition get_launcher :: "LauncherManager \<Rightarrow> string \<Rightarrow> launcher option" where
  "get_launcher m launcher_type = map_of (detected_launchers m) launcher_type"

fun get_all_instances_loop ::
  "(string \<times> launcher) list \<Rightarrow> world \<Rightarrow> (string \<times> instance_dict list) list \<Rightarrow>
   pyexn + (string \<times> instance_dict list) list" where
  "get_all_instances_loop [] w all_instances = Inr all_instances"
| "get_all_instances_loop (item # rest) w all_instances =
     (let launcher_type = fst item; launcher = snd item in
      pybind
        (try_except_Exception
           (pybind (get_instances launcher w) (\<lambda>instances.
              Inr (AList.update launcher_type instances all_instances)))
           (\<lambda>e. Inr (AList.update launcher_type [] all_instances)))
        (\<lambda>all_instances'. get_all_instances_loop rest w all_instances'))"

definition LauncherManager_get_all_instances ::
  "LauncherManager \<Rightarrow> world \<Rightarrow> pyexn + (string \<times> instance_dict list) list" where
  "LauncherManager_get_all_instances m w = get_all_instances_loop (detected_launchers m) w []"

fun get_launcher_infos_loop ::
  "(string \<times> launcher) list \<Rightarrow> world \<Rightarrow> (string \<times> LauncherInfo) list \<Rightarrow>
   pyexn + (string \<times> LauncherInfo) list" where
  "get_launcher_infos_loop [] w infos = Inr infos"
| "get_launcher_infos_loop (item # rest) w infos =
     (let launcher_type = fst item; launcher = snd item in
      pybind
        (try_except_Exception
           (pybind (get_launcher_info launcher w) (\<lambda>info.
              Inr (AList.update launcher_type info infos)))
           (\<lambda>e. Inr infos))
        (\<lambda>infos'. get_launcher_infos_loop rest w infos'))"

definition LauncherManager_get_launcher_infos ::
  "LauncherManager \<Rightarrow> world \<Rightarrow> pyexn + (string \<times> LauncherInfo) list" where
  "LauncherManager_get_launcher_infos m w = get_launcher_infos_loop (detected_launchers m) w []"

definition LauncherManager_get_logs ::
  "LauncherManager \<Rightarrow> world \<Rightarrow> string \<Rightarrow> string \<Rightarrow> pyexn + string option" where
  "LauncherManager_get_logs m w launcher_type instance_name =
     (case get_launcher m launcher_type of
        None \<Rightarrow> Inr (Some (''Launcher '' @ launcher_type @ '' not found''))
      | Some launcher \<Rightarrow>
          try_except_Exception
            (pybind (get_logs launcher w instance_name) (\<lambda>logs.
               case logs of
                 None \<Rightarrow> Inr (Some (''No logs found for instance '' @ instance_name))
               | Some text \<Rightarrow> Inr (Some text)))
            (\<lambda>e. Inr (Some (''Error retrieving logs: '' @ exn_str e))))"

definition LauncherManager_clear_logs ::
  "LauncherManager \<Rightarrow> world \<Rightarrow> string \<Rightarrow> string \<Rightarrow> (pyexn + bool) \<times> world" where
  "LauncherManager_clear_logs m w launcher_type instance_name =
     (case get_launcher m launcher_type of
        None \<Rightarrow> (Inr False, w)
      | Some launcher \<Rightarrow>
          (case clear_logs launcher w instance_name of
             (Inl e, w') \<Rightarrow> (Inr False, w')
           | (Inr b, w') \<Rightarrow> (Inr b, w')))"

definition LauncherManager_get_instance_logs_directory ::
  "LauncherManager \<Rightarrow> world \<Rightarrow> string \<Rightarrow> string \<Rightarrow> pyexn + ppath option" where
  "LauncherManager_get_instance_logs_directory m w launcher_type instance_name =
     (case get_launcher m launcher_type of
        None \<Rightarrow> Inr None
      | Some launcher \<Rightarrow>
          try_except_Exception
            (get_instance_logs_directory launcher w instance_name)
            (\<lambda>e. Inr None))"

definition register_custom_launcher :: "LauncherManager \<Rightarrow> string \<Rightarrow> launcher \<Rightarrow> LauncherManager" where
  "register_custom_launcher m launcher_type launcher =
     m\<lparr>detected_launchers := AList.update launcher_type launcher (detected_launchers m)\<rparr>"

section \<open>Auxiliary notions for the theorems\<close>

text \<open>
  What one round of \<open>_detect_all_launchers\<close> keeps of a class: the launcher, when the
  construction and \<open>detect()\<close> both return and \<open>detect()\<close> says yes.
\<close>

definition probe :: "(world \<Rightarrow> pyexn + launcher) \<Rightarrow> world \<Rightarrow> launcher option" where
  "probe launcher_class w =
     (case launcher_class w of
        Inl e \<Rightarrow> None
      | Inr launcher \<Rightarrow>
          (case detect launcher w of
             Inl e \<Rightarrow> None
           | Inr found \<Rightarrow> if found then Some launcher else None))"

text \<open>The node a path resolves to, from a directory given by its reversed canonical parts.\<close>

definition look :: "node \<Rightarrow> string list \<Rightarrow> string list \<Rightarrow> node option" where
  "look r acc p = (case resolve r acc p of None \<Rightarrow> None | Some cp \<Rightarrow> node_at r cp)"

text \<open>A string that \<open>pathlib\<close> reads as one part, and not as \<open>.\<close>.\<close>

definition plain_name :: "string \<Rightarrow> bool" where
  "plain_name s = (s \<noteq> [] \<and> s \<noteq> ''.'' \<and> CHR ''/'' \<notin> set s)"


text \<open>The pairs the lines of an \<open>instance.cfg\<close> set, in order.\<close>

definition cfg_assignments :: "string list \<Rightarrow> (string \<times> string) list" where
  "cfg_assignments lines = List.map_filter cfg_line lines"

text \<open>
  What \<open>MultiMCLauncher.get_instances\<close> makes of one entry of \<open>instances\<close>, given the
  entry's path and node.
\<close>

definition cfg_version :: "string \<Rightarrow> string" where
  "cfg_version text =
     (case map_of (parse_instance_cfg [] (text_lines [] text)) ''InstanceType'' of
        None \<Rightarrow> ''Unknown''
      | Some v \<Rightarrow> v)"

definition multimc_record :: "ppath \<Rightarrow> node \<Rightarrow> instance_dict option" where
  "multimc_record instance_path n =
     (case n of
        File c t \<Rightarrow> None
      | Dir t entries \<Rightarrow>
          (case map_of entries ''instance.cfg'' of
             Some (File text tm) \<Rightarrow>
               Some [(''name'', PStr (path_name instance_path)),
                     (''version'', PStr (cfg_version text)),
                     (''path'', PStr (path_str instance_path)),
                     (''type'', PStr ''instance''),
                     (''launcher'', PStr ''multimc'')]
           | _ \<Rightarrow> None))"

text \<open>
  A file system after a change at one canonical path: \<open>modify_at f r cp\<close> applies \<open>f\<close> to
  the node at \<open>cp\<close>. \<open>drop_entries t K\<close> removes the entries named in \<open>K\<close> from a
  directory and stamps it with the time \<open>t\<close>.
\<close>

fun modify_at :: "(node \<Rightarrow> node) \<Rightarrow> node \<Rightarrow> string list \<Rightarrow> node" where
  "modify_at f n [] = f n"
| "modify_at f (File c t) (k # ks) = File c t"
| "modify_at f (Dir t es) (k # ks) =
     Dir t (map (\<lambda>e. if fst e = k then (fst e, modify_at f (snd e) ks) else e) es)"

definition drop_entries :: "int \<Rightarrow> string set \<Rightarrow> node \<Rightarrow> node" where
  "drop_entries t K n =
     (case n of
        File c m \<Rightarrow> File c m
      | Dir m es \<Rightarrow> Dir t (filter (\<lambda>e. fst e \<notin> K) es))"

text \<open>The four adapters at one install path.\<close>

definition adapters :: "ppath \<Rightarrow> launcher set" where
  "adapters lp =
     {VanillaLauncher lp, MultiMCLauncher lp, PrismLauncherHandler lp, CurseForgeLauncher lp}"


text \<open>
  The logs directory of a Vanilla profile in the claim's words: \<open>gameDir/logs\<close>, where
  \<open>gameDir\<close> is the profile's entry and defaults to \<open>installPath/versions/<version>\<close>,
  the version being the profile's \<open>lastVersionId\<close>.
\<close>

definition spec_vanilla_logs_directory :: "ppath \<Rightarrow> (string \<times> pyval) list \<Rightarrow> ppath" where
  "spec_vanilla_logs_directory lp profile =
     pjoin
       (case map_of profile ''gameDir'' of
          Some (PStr s) \<Rightarrow> Path s
        | _ \<Rightarrow>
          pjoin (pjoin lp ''versions'')
            (case map_of profile ''lastVersionId'' of Some (PStr v) \<Rightarrow> v | _ \<Rightarrow> ''Unknown''))
       ''logs''"


section \<open>Concrete worlds\<close>

text \<open>
  A Linux home directory with the four launchers installed. MultiMC and Prism hold the
  same two instances: \<open>pack\<close>, with three files in its logs directory, and \<open>fresh\<close>,
  whose \<open>latest.log\<close> is empty. The CurseForge instance \<open>good\<close> has a logs directory
  without a log file.
\<close>

definition demo_json_loads :: "string \<Rightarrow> pyval option" where
  \<open>demo_json_loads text =
     (if text = ''{"minecraft": {"version": "1.20.1"}}''
        then Some (PDict [(''minecraft'', PDict [(''version'', PStr ''1.20.1'')])])
      else if text = ''{"profiles": {"Survival": {"lastVersionId": "1.20.1"}}}''
        then Some (PDict [(''profiles'',
                     PDict [(''Survival'', PDict [(''lastVersionId'', PStr ''1.20.1'')])])])
      else if text = ''[]'' then Some (PList [])
      else None)\<close>

definition demo_instances :: "(string \<times> node) list" where
  "demo_instances =
     [(''pack'', Dir 1
        [(''instance.cfg'', File (''[General]'' @ [CHR 0x0A] @ ''InstanceType=OneSix'' @ [CHR 0x0A] @
                                  ''name=pack'' @ [CHR 0x0A]) 1),
         (''.minecraft'', Dir 1
            [(''logs'', Dir 5
               [(''latest.log'', File ''[main/INFO]: Loading'' 5),
                (''debug.log'', File ''[main/DEBUG]: Start'' 4),
                (''notes.txt'', File ''keep me'' 2)])])]),
      (''fresh'', Dir 2
        [(''instance.cfg'', File (''InstanceType=OneSix'' @ [CHR 0x0A]) 2),
         (''.minecraft'', Dir 2 [(''logs'', Dir 2 [(''latest.log'', File [] 2)])])])]"

definition demo_root :: node where
  \<open>demo_root =
     Dir 0 [(''home'', Dir 0 [(''steve'', Dir 0
       [(''.minecraft'', Dir 3
          [(''launcher_profiles.json'',
              File ''{"profiles": {"Survival": {"lastVersionId": "1.20.1"}}}'' 3),
           (''logs'', Dir 9
              [(''latest.log'', File ''newest'' 9),
               (''2024-01-01-1.log'', File ''older'' 7),
               (''telemetry.txt'', File ''not a log'' 11)]),
           (''versions'', Dir 3 [(''1.20.1'', Dir 3 [])])]),
        (''.local'', Dir 0 [(''share'', Dir 0
          [(''multimc'', Dir 0
             [(''version.txt'', File (''0.7.0'' @ [CHR 0x0A]) 0),
              (''instances'', Dir 2 demo_instances)]),
           (''PrismLauncher'', Dir 0 [(''instances'', Dir 6 demo_instances)])])]),
        (''.curseforge'', Dir 0 [(''Instances'', Dir 0
          [(''good'', Dir 0
              [(''manifest.json'', File ''{"minecraft": {"version": "1.20.1"}}'' 0),
               (''logs'', Dir 0 [(''readme.txt'', File ''no logs yet'' 0)])]),
           (''bare'', Dir 0 [])])])])])]\<close>

definition demo_world :: world where
  "demo_world =
     \<lparr>root = demo_root, cwd = [''home'', ''steve''], now = 100,
      platform_system = ''Linux'', home = Inr (PPath True [''home'', ''steve'']),
      which_java = Some ''/usr/bin/java'', json_loads = demo_json_loads\<rparr>"

definition demo_multimc_path :: ppath where
  "demo_multimc_path = PPath True [''home'', ''steve'', ''.local'', ''share'', ''multimc'']"

definition demo_prism_path :: ppath where
  "demo_prism_path = PPath True [''home'', ''steve'', ''.local'', ''share'', ''PrismLauncher'']"

definition demo_vanilla_path :: ppath where
  "demo_vanilla_path = PPath True [''home'', ''steve'', ''.minecraft'']"

definition demo_profiles_text :: string where
  \<open>demo_profiles_text = ''{"profiles": {"Survival": {"lastVersionId": "1.20.1"}}}''\<close>

definition demo_pack_logs :: ppath where
  "demo_pack_logs =
     PPath True [''home'', ''steve'', ''.local'', ''share'', ''multimc'', ''instances'', ''pack'',
                 ''.minecraft'', ''logs'']"


definition demo_curseforge_path :: ppath where
  "demo_curseforge_path = PPath True [''home'', ''steve'', ''.curseforge'']"

definition demo_manager :: LauncherManager where
  "demo_manager =
     \<lparr>detected_launchers =
        [(''vanilla'', VanillaLauncher demo_vanilla_path),
         (''multimc'', MultiMCLauncher demo_multimc_path),
         (''prism'', PrismLauncherHandler demo_prism_path),
         (''curseforge'', CurseForgeLauncher demo_curseforge_path)]\<rparr>"

text \<open>A class whose \<open>detect()\<close> raises, in a table between two classes that work.\<close>

definition BrokenLauncher_init :: "world \<Rightarrow> pyexn + launcher" where
  "BrokenLauncher_init w =
     Inr ((CurseForgeLauncher (PPath True [''opt'', ''broken'']))
            \<lparr>detect := (\<lambda>w. Inl (PyExn OtherException ''probe failed''))\<rparr>)"

definition demo_table :: launcher_table where
  "demo_table =
     [(''vanilla'', VanillaLauncher_init),
      (''broken'', BrokenLauncher_init),
      (''multimc'', MultiMCLauncher_init)]"

text \<open>
  A second home directory, with files a launcher would not write: a
  \<open>launcher_profiles.json\<close> and a \<open>manifest.json\<close> that hold a JSON list, an
  \<open>instance.cfg\<close> that sets \<open>InstanceType\<close> twice, and a logs directory with a
  subdirectory named \<open>old.log\<close>. Under \<open>/opt/portable\<close>, \<open>instances\<close> is a regular file.
\<close>

definition odd_cfg_text :: string where
  "odd_cfg_text =
     ''[General]'' @ [CHR 0x0A] @ ''InstanceType=OneSix'' @ [CHR 0x0A] @
     ''InstanceType=Legacy'' @ [CHR 0x0A]"

definition odd_root :: node where
  \<open>odd_root =
     Dir 0 [(''home'', Dir 0 [(''alex'', Dir 0
       [(''.minecraft'', Dir 0 [(''launcher_profiles.json'', File ''[]'' 0)]),
        (''.local'', Dir 0 [(''share'', Dir 0
          [(''multimc'', Dir 0 [(''instances'', Dir 0
             [(''twice'', Dir 0
                [(''instance.cfg'',
                    File odd_cfg_text 0),
                 (''.minecraft'', Dir 0
                    [(''logs'', Dir 0
                       [(''latest.log'', File ''first'' 1),
                        (''old.log'', Dir 0 [(''1.log'', File ''archived'' 0)]),
                        (''zz.log'', File ''last'' 2)])])])])])])]),
        (''.curseforge'', Dir 0 [(''Instances'', Dir 0
          [(''good'', Dir 0 [(''manifest.json'', File ''{"minecraft": {"version": "1.20.1"}}'' 0)]),
           (''listed'', Dir 0 [(''manifest.json'', File ''[]'' 0)])])])])]),
      (''opt'', Dir 0 [(''portable'', Dir 0 [(''instances'', File ''a note'' 0)])])]\<close>

definition odd_world :: world where
  "odd_world =
     \<lparr>root = odd_root, cwd = [''home'', ''alex''], now = 100,
      platform_system = ''Linux'', home = Inr (PPath True [''home'', ''alex'']),
      which_java = None, json_loads = demo_json_loads\<rparr>"

definition odd_vanilla_path :: ppath where
  "odd_vanilla_path = PPath True [''home'', ''alex'', ''.minecraft'']"

definition odd_multimc_path :: ppath where
  "odd_multimc_path = PPath True [''home'', ''alex'', ''.local'', ''share'', ''multimc'']"

definition odd_curseforge_path :: ppath where
  "odd_curseforge_path = PPath True [''home'', ''alex'', ''.curseforge'']"



definition odd_manager :: LauncherManager where
  "odd_manager =
     \<lparr>detected_launchers =
        [(''vanilla'', VanillaLauncher odd_vanilla_path),
         (''multimc'', MultiMCLauncher odd_multimc_path),
         (''curseforge'', CurseForgeLauncher odd_curseforge_path)]\<rparr>"

section \<open>The manager\<close>

lemma distinct_update_iff:
  "distinct (map fst (AList.update k v al)) = distinct (map fst al)"
  by (induction al) (auto simp: AList.dom_update)

lemma detect_all_step:
  "detect_all_launchers ((n, c) # rest) w d =
     detect_all_launchers rest w (case probe c w of None \<Rightarrow> d | Some l \<Rightarrow> AList.update n l d)"
  by (simp add: probe_def pybind_def try_except_Exception_def split: sum.splits)

text \<open>
  The loop never raises; it keeps the keys distinct, leaves the names outside the table
  alone, and gives each name of the table what \<open>probe\<close> says.
\<close>

lemma detect_all_launchers_result:
  "\<exists>d'. detect_all_launchers table w d = Inr d' \<and>
        distinct (map fst d') = distinct (map fst d) \<and>
        (\<forall>n. n \<notin> fst ` set table \<longrightarrow> map_of d' n = map_of d n) \<and>
        (distinct (map fst table) \<longrightarrow>
           (\<forall>(n, c) \<in> set table.
              map_of d' n = (case probe c w of None \<Rightarrow> map_of d n | Some l \<Rightarrow> Some l)))"
proof (induction table arbitrary: d)
  case Nil
  then show ?case by simp
next
  case (Cons entry rest)
  obtain n c where entry: "entry = (n, c)" by (cases entry)
  define d1 where "d1 = (case probe c w of None \<Rightarrow> d | Some l \<Rightarrow> AList.update n l d)"
  from Cons.IH[of d1] obtain d' where
    run: "detect_all_launchers rest w d1 = Inr d'" and
    dist: "distinct (map fst d') = distinct (map fst d1)" and
    frame: "\<forall>m. m \<notin> fst ` set rest \<longrightarrow> map_of d' m = map_of d1 m" and
    hit: "distinct (map fst rest) \<longrightarrow>
           (\<forall>(m, c') \<in> set rest.
              map_of d' m = (case probe c' w of None \<Rightarrow> map_of d1 m | Some l \<Rightarrow> Some l))"
    by blast
  have d1_dist: "distinct (map fst d1) = distinct (map fst d)"
    by (simp add: d1_def distinct_update_iff split: option.splits)
  have d1_map: "map_of d1 m =
      (if m = n then (case probe c w of None \<Rightarrow> map_of d n | Some l \<Rightarrow> Some l) else map_of d m)"
    for m
    by (simp add: d1_def AList.update_conv' split: option.splits)
  have step: "detect_all_launchers (entry # rest) w d = Inr d'"
    using run unfolding entry detect_all_step d1_def .
  have c3: "\<forall>m. m \<notin> fst ` set (entry # rest) \<longrightarrow> map_of d' m = map_of d m"
    using frame d1_map by (simp add: entry)
  have c4: "distinct (map fst (entry # rest)) \<longrightarrow>
           (\<forall>(m, c') \<in> set (entry # rest).
              map_of d' m = (case probe c' w of None \<Rightarrow> map_of d m | Some l \<Rightarrow> Some l))"
  proof (intro impI ballI)
    fix x assume dst: "distinct (map fst (entry # rest))" and x: "x \<in> set (entry # rest)"
    obtain m c' where xm: "x = (m, c')" by (cases x)
    from dst have nn: "n \<notin> fst ` set rest" and dr: "distinct (map fst rest)"
      by (auto simp: entry)
    show "case x of (m, c') \<Rightarrow>
            map_of d' m = (case probe c' w of None \<Rightarrow> map_of d m | Some l \<Rightarrow> Some l)"
    proof (cases "x = entry")
      case True
      then show ?thesis using frame nn d1_map by (simp add: entry)
    next
      case False
      with x have xr: "x \<in> set rest" by simp
      then have "m \<noteq> n" using nn xm by force
      moreover from hit dr xr
      have "map_of d' m = (case probe c' w of None \<Rightarrow> map_of d1 m | Some l \<Rightarrow> Some l)"
        using xm by auto
      ultimately show ?thesis using xm by (simp add: d1_map split: option.splits)
    qed
  qed
  show ?case using step dist d1_dist c3 c4 by blast
qed

lemma SUPPORTED_LAUNCHERS_distinct: "distinct (map fst SUPPORTED_LAUNCHERS)"
  by (simp add: SUPPORTED_LAUNCHERS_def)

text \<open>
  C1. Constructing the manager never raises. A product of the table whose construction
  or whose \<open>detect()\<close> raises is left out of \<open>detected_launchers\<close>, and so is one whose
  \<open>detect()\<close> says no; every other product is in it, with the launcher that was
  constructed. The names of the table are distinct, as those of \<open>SUPPORTED_LAUNCHERS\<close>
  are.
\<close>

theorem detect_all_launchers_isolates_failures:
  assumes "distinct (map fst table)"
  shows "\<exists>detected.
           LauncherManager_init_with table w = Inr \<lparr>detected_launchers = detected\<rparr> \<and>
           distinct (map fst detected) \<and>
           (\<forall>(launcher_name, launcher_class) \<in> set table.
              map_of detected launcher_name =
                (case launcher_class w of
                   Inl e \<Rightarrow> None
                 | Inr launcher \<Rightarrow>
                     (case detect launcher w of
                        Inl e \<Rightarrow> None
                      | Inr found \<Rightarrow> if found then Some launcher else None)))"
proof -
  from detect_all_launchers_result[of table w "[]"] assms obtain d' where
    run: "detect_all_launchers table w [] = Inr d'" and
    dist: "distinct (map fst d')" and
    hit: "\<forall>(n, c) \<in> set table.
            map_of d' n = (case probe c w of None \<Rightarrow> map_of [] n | Some l \<Rightarrow> Some l)"
    by auto
  have "LauncherManager_init_with table w = Inr \<lparr>detected_launchers = d'\<rparr>"
    by (simp add: LauncherManager_init_with_def run pybind_def)
  moreover have "\<forall>(n, c) \<in> set table. map_of d' n = probe c w"
    using hit by (auto split: option.splits)
  ultimately show ?thesis using dist unfolding probe_def by blast
qed

lemma demo_default_paths:
  "VanillaLauncher_get_default_path demo_world = Inr demo_vanilla_path"
  "MultiMCLauncher_get_default_path demo_world = Inr demo_multimc_path"
  "PrismLauncherHandler_get_default_path demo_world = Inr demo_prism_path"
  "CurseForgeLauncher_get_default_path demo_world = Inr demo_curseforge_path"
  by code_simp+

lemma demo_inits:
  "VanillaLauncher_init demo_world = Inr (VanillaLauncher demo_vanilla_path)"
  "MultiMCLauncher_init demo_world = Inr (MultiMCLauncher demo_multimc_path)"
  "PrismLauncherHandler_init demo_world = Inr (PrismLauncherHandler demo_prism_path)"
  "CurseForgeLauncher_init demo_world = Inr (CurseForgeLauncher demo_curseforge_path)"
  by (simp_all add: VanillaLauncher_init_def MultiMCLauncher_init_def PrismLauncherHandler_init_def
        CurseForgeLauncher_init_def demo_default_paths pybind_def)

lemma demo_detects:
  "detect (VanillaLauncher demo_vanilla_path) demo_world = Inr True"
  "detect (MultiMCLauncher demo_multimc_path) demo_world = Inr True"
  "detect (PrismLauncherHandler demo_prism_path) demo_world = Inr True"
  "detect (CurseForgeLauncher demo_curseforge_path) demo_world = Inr True"
  by code_simp+

theorem detect_all_launchers_isolates_failures_witness:
  "distinct (map fst demo_table) \<and>
   (\<exists>detected.
      LauncherManager_init_with demo_table demo_world = Inr \<lparr>detected_launchers = detected\<rparr> \<and>
      map_of detected ''vanilla'' = Some (VanillaLauncher demo_vanilla_path) \<and>
      map_of detected ''broken'' = None \<and>
      map_of detected ''multimc'' = Some (MultiMCLauncher demo_multimc_path))"
proof -
  have d: "distinct (map fst demo_table)" by (simp add: demo_table_def)
  from detect_all_launchers_isolates_failures[OF d, of demo_world] obtain detected where
    run: "LauncherManager_init_with demo_table demo_world = Inr \<lparr>detected_launchers = detected\<rparr>" and
    hit: "\<forall>(launcher_name, launcher_class) \<in> set demo_table.
              map_of detected launcher_name =
                (case launcher_class demo_world of
                   Inl e \<Rightarrow> None
                 | Inr launcher \<Rightarrow>
                     (case detect launcher demo_world of
                        Inl e \<Rightarrow> None
                      | Inr found \<Rightarrow> if found then Some launcher else None))"
    by blast
  from hit have
    "map_of detected ''vanilla'' = Some (VanillaLauncher demo_vanilla_path)"
    "map_of detected ''broken'' = None"
    "map_of detected ''multimc'' = Some (MultiMCLauncher demo_multimc_path)"
    by (simp_all add: demo_table_def demo_inits demo_detects BrokenLauncher_init_def)
  with d run show ?thesis by blast
qed

lemma get_launcher_infos_step:
  "get_launcher_infos_loop ((t, l) # rest) w infos =
     get_launcher_infos_loop rest w
       (case get_launcher_info l w of Inl e \<Rightarrow> infos | Inr info \<Rightarrow> AList.update t info infos)"
  by (simp add: pybind_def try_except_Exception_def split: sum.splits)

lemma get_launcher_infos_loop_result:
  "distinct (map fst items) \<Longrightarrow>
   \<exists>infos'. get_launcher_infos_loop items w infos = Inr infos' \<and>
        distinct (map fst infos') = distinct (map fst infos) \<and>
        (\<forall>t. map_of infos' t =
           (case map_of items t of
              None \<Rightarrow> map_of infos t
            | Some l \<Rightarrow> (case get_launcher_info l w of
                          Inl e \<Rightarrow> map_of infos t
                        | Inr info \<Rightarrow> Some info)))"
proof (induction items arbitrary: infos)
  case Nil
  then show ?case by simp
next
  case (Cons item rest)
  obtain t l where item: "item = (t, l)" by (cases item)
  define i1 where
    "i1 = (case get_launcher_info l w of Inl e \<Rightarrow> infos | Inr info \<Rightarrow> AList.update t info infos)"
  from Cons.prems have dr: "distinct (map fst rest)" and tn: "map_of rest t = None"
    by (auto simp: item map_of_eq_None_iff)
  from Cons.IH[OF dr, of i1] obtain infos' where
    run: "get_launcher_infos_loop rest w i1 = Inr infos'" and
    dist: "distinct (map fst infos') = distinct (map fst i1)" and
    val: "\<forall>u. map_of infos' u =
           (case map_of rest u of
              None \<Rightarrow> map_of i1 u
            | Some l \<Rightarrow> (case get_launcher_info l w of
                          Inl e \<Rightarrow> map_of i1 u
                        | Inr info \<Rightarrow> Some info))"
    by blast
  have i1_dist: "distinct (map fst i1) = distinct (map fst infos)"
    by (simp add: i1_def distinct_update_iff split: sum.splits)
  have i1_map: "map_of i1 u =
      (if u = t then (case get_launcher_info l w of Inl e \<Rightarrow> map_of infos t | Inr info \<Rightarrow> Some info)
       else map_of infos u)" for u
    by (simp add: i1_def AList.update_conv' split: sum.splits)
  have step: "get_launcher_infos_loop (item # rest) w infos = Inr infos'"
    using run unfolding item get_launcher_infos_step i1_def .
  have "map_of infos' u =
           (case map_of (item # rest) u of
              None \<Rightarrow> map_of infos u
            | Some l \<Rightarrow> (case get_launcher_info l w of
                          Inl e \<Rightarrow> map_of infos u
                        | Inr info \<Rightarrow> Some info))" for u
  proof (cases "u = t")
    case True
    then show ?thesis using val tn by (simp add: item i1_map split: sum.splits)
  next
    case False
    then show ?thesis using val by (simp add: item i1_map split: option.splits sum.splits)
  qed
  then show ?case using step dist i1_dist by blast
qed

text \<open>
  C9. \<open>get_launcher_infos\<close> never raises, and its result has an entry for a launcher type
  exactly when the type is detected and its \<open>get_launcher_info\<close> returns; the entry is
  what the call returned. A launcher whose call raises has no entry.
\<close>

theorem get_launcher_infos_omits_failures:
  assumes "distinct (map fst (detected_launchers m))"
  shows "\<exists>infos.
           LauncherManager_get_launcher_infos m w = Inr infos \<and>
           distinct (map fst infos) \<and>
           (\<forall>launcher_type.
              map_of infos launcher_type =
                (case get_launcher m launcher_type of
                   None \<Rightarrow> None
                 | Some launcher \<Rightarrow>
                     (case get_launcher_info launcher w of
                        Inl e \<Rightarrow> None
                      | Inr info \<Rightarrow> Some info))) \<and>
           fst ` set infos =
             {launcher_type. \<exists>launcher info.
                get_launcher m launcher_type = Some launcher \<and>
                get_launcher_info launcher w = Inr info}"
proof -
  from get_launcher_infos_loop_result[OF assms, of w "[]"] obtain infos where
    run: "get_launcher_infos_loop (detected_launchers m) w [] = Inr infos" and
    dist: "distinct (map fst infos)" and
    val0: "\<forall>t. map_of infos t =
           (case map_of (detected_launchers m) t of
              None \<Rightarrow> map_of [] t
            | Some l \<Rightarrow> (case get_launcher_info l w of
                          Inl e \<Rightarrow> map_of [] t
                        | Inr info \<Rightarrow> Some info))"
    by auto
  have val: "\<forall>t. map_of infos t =
           (case map_of (detected_launchers m) t of
              None \<Rightarrow> None
            | Some l \<Rightarrow> (case get_launcher_info l w of Inl e \<Rightarrow> None | Inr info \<Rightarrow> Some info))"
    using val0 by (simp cong: option.case_cong sum.case_cong)
  have mem: "t \<in> dom (map_of infos) \<longleftrightarrow>
      (\<exists>l info. get_launcher m t = Some l \<and> get_launcher_info l w = Inr info)" for t
  proof (cases "map_of (detected_launchers m) t")
    case None
    then show ?thesis using val by (simp add: get_launcher_def dom_def)
  next
    case (Some l)
    then show ?thesis using val by (cases "get_launcher_info l w") (simp_all add: get_launcher_def dom_def)
  qed
  have keys: "fst ` set infos =
             {t. \<exists>l info. get_launcher m t = Some l \<and> get_launcher_info l w = Inr info}"
  proof -
    have "fst ` set infos = dom (map_of infos)" by (simp add: dom_map_of_conv_image_fst)
    also have "\<dots> = {t. \<exists>l info. get_launcher m t = Some l \<and> get_launcher_info l w = Inr info}"
      using mem by blast
    finally show ?thesis .
  qed
  show ?thesis
    using run dist val keys
    by (auto simp: LauncherManager_get_launcher_infos_def get_launcher_def)
qed

lemma odd_default_paths:
  "VanillaLauncher_get_default_path odd_world = Inr odd_vanilla_path"
  "MultiMCLauncher_get_default_path odd_world = Inr odd_multimc_path"
  "CurseForgeLauncher_get_default_path odd_world = Inr odd_curseforge_path"
  by code_simp+

lemma odd_probes:
  "probe VanillaLauncher_init odd_world = Some (VanillaLauncher odd_vanilla_path)"
  "probe MultiMCLauncher_init odd_world = Some (MultiMCLauncher odd_multimc_path)"
  "probe PrismLauncherHandler_init odd_world = None"
  "probe CurseForgeLauncher_init odd_world = Some (CurseForgeLauncher odd_curseforge_path)"
proof -
  have "detect (VanillaLauncher odd_vanilla_path) odd_world = Inr True"
    "detect (MultiMCLauncher odd_multimc_path) odd_world = Inr True"
    "detect (CurseForgeLauncher odd_curseforge_path) odd_world = Inr True"
    by code_simp+
  then show
    "probe VanillaLauncher_init odd_world = Some (VanillaLauncher odd_vanilla_path)"
    "probe MultiMCLauncher_init odd_world = Some (MultiMCLauncher odd_multimc_path)"
    "probe CurseForgeLauncher_init odd_world = Some (CurseForgeLauncher odd_curseforge_path)"
    by (simp_all add: probe_def VanillaLauncher_init_def MultiMCLauncher_init_def
        CurseForgeLauncher_init_def odd_default_paths pybind_def)
  show "probe PrismLauncherHandler_init odd_world = None"
    by code_simp
qed

lemma odd_manager_init: "LauncherManager_init odd_world = Inr odd_manager"
  by (simp add: LauncherManager_init_def LauncherManager_init_with_def SUPPORTED_LAUNCHERS_def
      detect_all_step odd_probes pybind_def odd_manager_def del: detect_all_launchers.simps(2))

theorem get_launcher_infos_omits_failures_witness:
  "distinct (map fst (detected_launchers odd_manager)) \<and>
   (\<exists>e. get_launcher_info (VanillaLauncher odd_vanilla_path) odd_world = Inl e) \<and>
   (\<exists>infos. LauncherManager_get_launcher_infos odd_manager odd_world = Inr infos \<and>
      fst ` set infos = {''multimc'', ''curseforge''})"
proof -
  have d: "distinct (map fst (detected_launchers odd_manager))"
    by (simp add: odd_manager_def)
  have v: "get_launcher_info (VanillaLauncher odd_vanilla_path) odd_world =
             Inl (PyExn AttributeError
               ([CHR 0x27] @ ''list'' @ [CHR 0x27] @ '' object has no attribute '' @
                [CHR 0x27] @ ''get'' @ [CHR 0x27]))"
    by code_simp
  have m: "get_launcher_info (MultiMCLauncher odd_multimc_path) odd_world =
             Inr \<lparr>info_name = ''MultiMC'', info_version = PNone, info_path = odd_multimc_path,
                  info_java_executable = None, info_launcher_type = ''multimc''\<rparr>"
    by code_simp
  have c: "get_launcher_info (CurseForgeLauncher odd_curseforge_path) odd_world =
             Inr \<lparr>info_name = ''CurseForge Launcher'', info_version = PNone,
                  info_path = odd_curseforge_path,
                  info_java_executable = None, info_launcher_type = ''curseforge''\<rparr>"
    by code_simp
  from get_launcher_infos_omits_failures[OF d, of odd_world] obtain infos where
    run: "LauncherManager_get_launcher_infos odd_manager odd_world = Inr infos" and
    keys: "fst ` set infos =
             {launcher_type. \<exists>launcher info.
                get_launcher odd_manager launcher_type = Some launcher \<and>
                get_launcher_info launcher odd_world = Inr info}"
    by blast
  have "{launcher_type. \<exists>launcher info.
                get_launcher odd_manager launcher_type = Some launcher \<and>
                get_launcher_info launcher odd_world = Inr info} = {''multimc'', ''curseforge''}"
    using v m c by (auto simp: get_launcher_def odd_manager_def split: if_splits)
  with d v run keys show ?thesis by auto
qed

text \<open>
  C2, amended. \<open>LauncherManager.get_logs\<close> never raises and never returns \<open>None\<close>. It
  returns a diagnostic string, which is not empty, when the launcher type is not
  detected, when the adapter's \<open>get_logs\<close> returns \<open>None\<close> and when it raises; otherwise
  it returns the adapter's log content as it is, which is empty for an empty log file.
\<close>

theorem manager_get_logs_returns_string:
  "\<exists>s. LauncherManager_get_logs m w launcher_type instance_name = Inr (Some s) \<and>
       (case get_launcher m launcher_type of
          None \<Rightarrow> s = ''Launcher '' @ launcher_type @ '' not found'' \<and> s \<noteq> []
        | Some launcher \<Rightarrow>
            (case get_logs launcher w instance_name of
               Inl e \<Rightarrow> s = ''Error retrieving logs: '' @ exn_str e \<and> s \<noteq> []
             | Inr None \<Rightarrow> s = ''No logs found for instance '' @ instance_name \<and> s \<noteq> []
             | Inr (Some text) \<Rightarrow> s = text))"
  by (simp add: LauncherManager_get_logs_def try_except_Exception_def pybind_def
      split: option.splits sum.splits)

lemma demo_manager_init: "LauncherManager_init demo_world = Inr demo_manager"
  by (simp add: LauncherManager_init_def LauncherManager_init_with_def SUPPORTED_LAUNCHERS_def
      detect_all_step probe_def demo_inits demo_detects pybind_def demo_manager_def
      del: detect_all_launchers.simps(2))

theorem manager_get_logs_nonempty_counterexample:
  "LauncherManager_init demo_world = Inr demo_manager \<and>
   LauncherManager_get_logs demo_manager demo_world ''multimc'' ''fresh'' = Inr (Some [])"
proof -
  have "LauncherManager_get_logs demo_manager demo_world ''multimc'' ''fresh'' = Inr (Some [])"
    by code_simp
  with demo_manager_init show ?thesis by simp
qed

section \<open>Reading the file system\<close>

lemma node_at_append:
  "node_at r (a @ b) = (case node_at r a of None \<Rightarrow> None | Some n \<Rightarrow> node_at n b)"
proof (induction r a rule: node_at.induct)
  case (1 n)
  show ?case by simp
next
  case (2 c t k ks)
  show ?case by simp
next
  case (3 t es k ks)
  then show ?case by (simp split: option.splits)
qed

lemma resolve_append:
  "resolve r acc (p @ q) =
     (case resolve r acc p of None \<Rightarrow> None | Some cp \<Rightarrow> resolve r (rev cp) q)"
  by (induction p arbitrary: acc) (auto split: option.splits node.splits)

lemma look_plain:
  "''..'' \<notin> set q \<Longrightarrow> look r acc q = node_at r (rev acc @ q)"
proof (induction q arbitrary: acc)
  case Nil
  show ?case by (simp add: look_def)
next
  case (Cons k ks)
  then have k: "k \<noteq> ''..''" and ks: "''..'' \<notin> set ks" by auto
  show ?case
  proof (cases "node_at r (rev acc @ [k])")
    case None
    then have "node_at r ((rev acc @ [k]) @ ks) = None"
      by (simp only: node_at_append) simp
    with None k show ?thesis by (simp add: look_def)
  next
    case (Some m)
    with k have "look r acc (k # ks) = look r (k # acc) ks" by (simp add: look_def)
    with Cons.IH[OF ks, of "k # acc"] show ?thesis by simp
  qed
qed

lemma look_append:
  "look r acc (p @ q) = (case resolve r acc p of None \<Rightarrow> None | Some cp \<Rightarrow> look r (rev cp) q)"
  by (simp add: look_def resolve_append split: option.splits)

lemma lookup_look: "lookup w p = look (root w) (if is_absolute p then [] else rev (cwd w)) (parts p)"
  by (simp add: lookup_def canon_def look_def)

text \<open>Below a path, parts other than \<open>..\<close> are looked up in the node the path leads to.\<close>

lemma lookup_below:
  assumes "''..'' \<notin> set q"
  shows "lookup w (PPath a (ps @ q)) =
           (case lookup w (PPath a ps) of None \<Rightarrow> None | Some n \<Rightarrow> node_at n q)"
proof -
  define acc where "acc = (if a then [] else rev (cwd w))"
  have full: "lookup w (PPath a (ps @ q)) =
      (case resolve (root w) acc ps of None \<Rightarrow> None | Some cp \<Rightarrow> look (root w) (rev cp) q)"
    unfolding lookup_look acc_def by (simp add: look_append)
  have pre: "lookup w (PPath a ps) =
      (case resolve (root w) acc ps of None \<Rightarrow> None | Some cp \<Rightarrow> node_at (root w) cp)"
    unfolding lookup_look acc_def by (simp add: look_def)
  show ?thesis
    unfolding full pre
    by (simp add: look_plain[OF assms] node_at_append split: option.splits)
qed

lemma lookup_child:
  "k \<noteq> ''..'' \<Longrightarrow>
   lookup w (child p k) =
     (case lookup w p of Some (Dir t es) \<Rightarrow> map_of es k | _ \<Rightarrow> None)"
proof -
  assume k: "k \<noteq> ''..''"
  obtain a ps where p: "p = PPath a ps" by (cases p)
  from k have "''..'' \<notin> set [k]" by simp
  from lookup_below[OF this, of w a ps] show ?thesis
    by (simp add: child_def p split: option.splits node.splits)
qed

lemma split_on_plain: "sep \<notin> set s \<Longrightarrow> split_on sep s = [s]"
  by (induction s) auto

lemma pjoin_plain: "plain_name s \<Longrightarrow> pjoin p s = child p s"
  by (cases s) (auto simp: plain_name_def pjoin_def child_def path_parts_def split_on_plain
      startswith_def)

lemma plain_literals:
  "plain_name ''instances''" "plain_name ''Instances''" "plain_name ''launcher_profiles.json''"
  "plain_name ''instance.cfg''" "plain_name ''manifest.json''" "plain_name ''logs''"
  "plain_name ''.minecraft''" "plain_name ''latest.log''" "plain_name ''versions''"
  by (simp_all add: plain_name_def)


lemma path_exists_child:
  "k \<noteq> ''..'' \<Longrightarrow> path_exists w (child p k) \<Longrightarrow> path_exists w p"
  by (auto simp: path_exists_def lookup_child split: option.splits)






section \<open>instance.cfg\<close>

lemma parse_instance_cfg_fold:
  "parse_instance_cfg config lines =
     foldl (\<lambda>c kv. AList.update (fst kv) (snd kv) c) config (cfg_assignments lines)"
  by (induction lines arbitrary: config)
     (auto simp: cfg_assignments_def List.map_filter_simps split: option.splits)

lemma map_of_foldl_update:
  "map_of (foldl (\<lambda>c kv. AList.update (fst kv) (snd kv) c) config kvs) k =
     (case map_of (rev kvs) k of None \<Rightarrow> map_of config k | Some v \<Rightarrow> Some v)"
proof (induction kvs arbitrary: config)
  case Nil
  show ?case by simp
next
  case (Cons kv kvs)
  show ?case
    by (simp add: Cons.IH AList.update_conv' map_add_def split: option.splits)
qed

lemma cfg_assignments_append:
  "cfg_assignments (xs @ ys) = cfg_assignments xs @ cfg_assignments ys"
  by (simp add: cfg_assignments_def List.map_filter_def)

lemma cfg_line_section: "startswith (strip raw) ''['' \<Longrightarrow> cfg_line raw = None"
  by (simp add: cfg_line_def)

lemma cfg_line_InstanceType:
  "strip raw = ''InstanceType=OneSix'' \<Longrightarrow> cfg_line raw = Some (''InstanceType'', ''OneSix'')"
proof -
  assume s: "strip raw = ''InstanceType=OneSix''"
  have "strip ''InstanceType'' = ''InstanceType''" "strip ''OneSix'' = ''OneSix''"
    by code_simp+
  then show ?thesis
    by (simp add: cfg_line_def s startswith_def split_once_def)
qed

text \<open>The last line that sets a key decides its value.\<close>

lemma parse_instance_cfg_last:
  assumes "cfg_line l = Some (k, v)"
    and "\<forall>l' \<in> set post. map_option fst (cfg_line l') \<noteq> Some k"
  shows "map_of (parse_instance_cfg config (pre @ l # post)) k = Some v"
proof -
  have post: "map_of (rev (cfg_assignments post)) k = None"
  proof -
    have "k \<notin> fst ` set (cfg_assignments post)"
      using assms(2)
      by (force simp: cfg_assignments_def List.map_filter_def)
    then show ?thesis by (simp add: map_of_eq_None_iff)
  qed
  have "cfg_assignments (pre @ l # post) = cfg_assignments pre @ (k, v) # cfg_assignments post"
    using assms(1) cfg_assignments_append[of pre "l # post"] cfg_assignments_append[of "[l]" post]
    by (simp add: cfg_assignments_def List.map_filter_simps)
  then have "map_of (parse_instance_cfg config (pre @ l # post)) k =
      (case map_of (rev (cfg_assignments pre @ (k, v) # cfg_assignments post)) k of
         None \<Rightarrow> map_of config k | Some v' \<Rightarrow> Some v')"
    by (simp only: parse_instance_cfg_fold map_of_foldl_update)
  also have "map_of (rev (cfg_assignments pre @ (k, v) # cfg_assignments post)) k = Some v"
    by (simp add: map_add_def post)
  finally show ?thesis by simp
qed

lemma lookup_pjoin_plain:
  "plain_name k \<Longrightarrow> k \<noteq> ''..'' \<Longrightarrow>
   lookup w (pjoin p k) = (case lookup w p of Some (Dir t es) \<Rightarrow> map_of es k | _ \<Rightarrow> None)"
  by (simp add: pjoin_plain lookup_child)

lemma MultiMCLauncher_instance_record:
  "MultiMCLauncher_instance w ip =
     (case lookup w ip of None \<Rightarrow> None | Some n \<Rightarrow> multimc_record ip n)"
proof (cases "lookup w ip")
  case None
  then show ?thesis by (simp add: MultiMCLauncher_instance_def path_is_dir_def)
next
  case (Some n)
  show ?thesis
  proof (cases n)
    case (File c t)
    with Some show ?thesis
      by (simp add: MultiMCLauncher_instance_def path_is_dir_def multimc_record_def)
  next
    case (Dir t entries)
    with Some have cfg: "lookup w (pjoin ip ''instance.cfg'') = map_of entries ''instance.cfg''"
      by (simp add: lookup_pjoin_plain plain_literals)
    show ?thesis
      using Some Dir
      by (simp add: MultiMCLauncher_instance_def path_is_dir_def multimc_record_def cfg
          path_exists_def read_text_def cfg_version_def Let_def split: option.splits node.splits)
  qed
qed

lemma path_name_child [simp]: "path_name (child p k) = k"
  by (cases p) (simp add: path_name_def child_def)

lemma map_filter_map_cong:
  "(\<And>x. x \<in> set xs \<Longrightarrow> f (g x) = h x) \<Longrightarrow>
   List.map_filter f (map g xs) = List.map_filter h xs"
  by (induction xs) (auto simp: List.map_filter_simps split: option.splits)

lemma MultiMCLauncher_get_instances_dir:
  assumes "lookup w (pjoin lp ''instances'') = Some (Dir t es)"
  shows "MultiMCLauncher_get_instances lp w =
     Inr (List.map_filter
            (\<lambda>k. case map_of es k of
                   None \<Rightarrow> None
                 | Some n \<Rightarrow> multimc_record (child (pjoin lp ''instances'') k) n)
            (dir_names es))"
proof -
  have "MultiMCLauncher_instance w (child (pjoin lp ''instances'') k) =
          (case map_of es k of
             None \<Rightarrow> None
           | Some n \<Rightarrow> multimc_record (child (pjoin lp ''instances'') k) n)"
    if "k \<in> set (dir_names es)" for k
  proof -
    from that have "k \<noteq> ''..''" by (simp add: dir_names_def)
    then show ?thesis
      by (simp add: MultiMCLauncher_instance_record lookup_child assms)
  qed
  then have "List.map_filter (MultiMCLauncher_instance w)
               (map (child (pjoin lp ''instances'')) (dir_names es)) =
             List.map_filter
               (\<lambda>k. case map_of es k of
                      None \<Rightarrow> None
                    | Some n \<Rightarrow> multimc_record (child (pjoin lp ''instances'') k) n)
               (dir_names es)"
    by (rule map_filter_map_cong)
  then show ?thesis
    using assms
    by (simp add: MultiMCLauncher_get_instances_def path_exists_def iterdir_def pybind_def)
qed

text \<open>
  C7, amended. For an instance directory of MultiMC whose \<open>instance.cfg\<close> has the line
  \<open>InstanceType=OneSix\<close> and no later line that sets \<open>InstanceType\<close>, \<open>get_instances\<close>
  yields a record with the directory's name whose version is \<open>OneSix\<close>. The file is read
  as \<open>key=value\<close> lines, and a line that starts with \<open>[\<close> sets nothing.
\<close>

theorem get_instances_reads_InstanceType:
  assumes "lookup w (pjoin lp ''instances'') = Some (Dir t es)"
    and "n \<in> set (dir_names es)"
    and "map_of es n = Some (Dir t' entries)"
    and "map_of entries ''instance.cfg'' = Some (File text tm)"
    and "text_lines [] text = pre @ l # post"
    and "strip l = ''InstanceType=OneSix''"
    and "\<forall>l' \<in> set post. map_option fst (cfg_line l') \<noteq> Some ''InstanceType''"
  shows "(\<exists>instances.
            MultiMCLauncher_get_instances lp w = Inr instances \<and>
            (\<exists>i \<in> set instances.
               map_of i ''name'' = Some (PStr n) \<and>
               map_of i ''version'' = Some (PStr ''OneSix''))) \<and>
         (\<forall>raw. startswith (strip raw) ''['' \<longrightarrow> cfg_line raw = None) \<and>
         (\<forall>config lines.
            parse_instance_cfg config lines =
            parse_instance_cfg config (filter (\<lambda>raw. \<not> startswith (strip raw) ''['') lines))"
proof -
  have v: "cfg_version text = ''OneSix''"
    using parse_instance_cfg_last[OF cfg_line_InstanceType[OF assms(6)] assms(7), of "[]" pre]
    by (simp add: cfg_version_def assms(5))
  define i where "i = [(''name'', PStr n), (''version'', PStr ''OneSix''),
      (''path'', PStr (path_str (child (pjoin lp ''instances'') n))),
      (''type'', PStr ''instance''), (''launcher'', PStr ''multimc'')]"
  have "multimc_record (child (pjoin lp ''instances'') n) (Dir t' entries) = Some i"
    by (simp add: multimc_record_def assms(4) v i_def)
  then have "i \<in> set (List.map_filter
            (\<lambda>k. case map_of es k of
                   None \<Rightarrow> None
                 | Some n \<Rightarrow> multimc_record (child (pjoin lp ''instances'') k) n)
            (dir_names es))"
    using assms(2,3) by (force simp: List.map_filter_def)
  then have first: "\<exists>instances.
            MultiMCLauncher_get_instances lp w = Inr instances \<and>
            (\<exists>i \<in> set instances.
               map_of i ''name'' = Some (PStr n) \<and>
               map_of i ''version'' = Some (PStr ''OneSix''))"
    unfolding MultiMCLauncher_get_instances_dir[OF assms(1)]
    by (intro exI conjI bexI[of _ i]) (simp_all add: i_def)
  have "parse_instance_cfg config lines =
        parse_instance_cfg config (filter (\<lambda>raw. \<not> startswith (strip raw) ''['') lines)"
    for config lines
    by (induction lines arbitrary: config) (auto simp: cfg_line_section split: option.splits)
  with first cfg_line_section show ?thesis by blast
qed

theorem get_instances_reads_InstanceType_witness:
  "\<exists>instances.
     MultiMCLauncher_get_instances demo_multimc_path demo_world = Inr instances \<and>
     (\<exists>i \<in> set instances.
        map_of i ''name'' = Some (PStr ''pack'') \<and>
        map_of i ''version'' = Some (PStr ''OneSix''))"
proof -
  define cfg where
    "cfg = ''[General]'' @ [CHR 0x0A] @ ''InstanceType=OneSix'' @ [CHR 0x0A] @
            ''name=pack'' @ [CHR 0x0A]"
  define entries where
    "entries = [(''instance.cfg'', File cfg 1),
         (''.minecraft'', Dir 1
            [(''logs'', Dir 5
               [(''latest.log'', File ''[main/INFO]: Loading'' 5),
                (''debug.log'', File ''[main/DEBUG]: Start'' 4),
                (''notes.txt'', File ''keep me'' 2)])])]"
  have h1: "lookup demo_world (pjoin demo_multimc_path ''instances'') = Some (Dir 2 demo_instances)"
    by code_simp
  have h2: "''pack'' \<in> set (dir_names demo_instances)"
    by code_simp
  have h3: "map_of demo_instances ''pack'' = Some (Dir 1 entries)"
    by (simp add: demo_instances_def entries_def cfg_def)
  have h4: "map_of entries ''instance.cfg'' = Some (File cfg 1)"
    by (simp add: entries_def)
  have h5: "text_lines [] cfg = [''[General]''] @ ''InstanceType=OneSix'' # [''name=pack'']"
    unfolding cfg_def by code_simp
  have h6: "strip ''InstanceType=OneSix'' = ''InstanceType=OneSix''"
    by code_simp
  have "map_option fst (cfg_line ''name=pack'') \<noteq> Some ''InstanceType''"
    by code_simp
  then have h7: "\<forall>l' \<in> set [''name=pack'']. map_option fst (cfg_line l') \<noteq> Some ''InstanceType''"
    by simp
  from get_instances_reads_InstanceType[OF h1 h2 h3 h4 h5 h6 h7]
  show ?thesis by blast
qed

text \<open>
  The claim as stated fails when a later line sets \<open>InstanceType\<close> again: the file
  has the section header and the line \<open>InstanceType=OneSix\<close>, and the version is
  \<open>Legacy\<close>.
\<close>

theorem get_instances_InstanceType_counterexample:
  "read_text odd_world
     (PPath True [''home'', ''alex'', ''.local'', ''share'', ''multimc'', ''instances'', ''twice'',
                  ''instance.cfg'']) = Inr odd_cfg_text \<and>
   text_lines [] odd_cfg_text = [''[General]'', ''InstanceType=OneSix'', ''InstanceType=Legacy''] \<and>
   MultiMCLauncher_get_instances odd_multimc_path odd_world =
     Inr [[(''name'', PStr ''twice''), (''version'', PStr ''Legacy''),
           (''path'', PStr ''/home/alex/.local/share/multimc/instances/twice''),
           (''type'', PStr ''instance''), (''launcher'', PStr ''multimc'')]]"
  by code_simp

text \<open>
  C8: the code at a manifest that parses and is not a JSON object. The claim gives the
  instance the version \<open>Unknown\<close>; the code raises \<open>AttributeError\<close> out of
  \<open>get_instances\<close>, so the listing of the other instances is lost too, and the manager
  reports an empty list for CurseForge.
\<close>

theorem curseforge_manifest_list_raises:
  "read_text odd_world
     (PPath True [''home'', ''alex'', ''.curseforge'', ''Instances'', ''listed'', ''manifest.json''])
     = Inr ''[]'' \<and>
   json_loads odd_world ''[]'' = Some (PList []) \<and>
   CurseForgeLauncher_get_instances odd_curseforge_path odd_world =
     Inl (PyExn AttributeError
            ([CHR 0x27] @ ''list'' @ [CHR 0x27] @ '' object has no attribute '' @
             [CHR 0x27] @ ''get'' @ [CHR 0x27])) \<and>
   map_sum id (\<lambda>all_instances. map_of all_instances ''curseforge'')
     (LauncherManager_get_all_instances odd_manager odd_world) = Inr (Some [])"
  by code_simp

text \<open>Where the version of a CurseForge manifest degrades to \<open>Unknown\<close>, and where it does not.\<close>

lemma CurseForgeLauncher_manifest_version_cases:
  "lookup w mf = None \<Longrightarrow>
     CurseForgeLauncher_manifest_version w mf = Inr (PStr ''Unknown'')"
  "lookup w mf = Some (Dir t es) \<Longrightarrow>
     CurseForgeLauncher_manifest_version w mf = Inr (PStr ''Unknown'')"
  "lookup w mf = Some (File c tm) \<Longrightarrow> json_loads w c = None \<Longrightarrow>
     CurseForgeLauncher_manifest_version w mf = Inr (PStr ''Unknown'')"
  "lookup w mf = Some (File c tm) \<Longrightarrow> json_loads w c = Some (PDict kvs) \<Longrightarrow>
   map_of kvs ''minecraft'' = None \<Longrightarrow>
     CurseForgeLauncher_manifest_version w mf = Inr (PStr ''Unknown'')"
  "lookup w mf = Some (File c tm) \<Longrightarrow> json_loads w c = Some (PDict kvs) \<Longrightarrow>
   map_of kvs ''minecraft'' = Some (PDict mc) \<Longrightarrow>
     CurseForgeLauncher_manifest_version w mf =
       Inr (case map_of mc ''version'' of None \<Rightarrow> PStr ''Unknown'' | Some v \<Rightarrow> v)"
  by (simp_all add: CurseForgeLauncher_manifest_version_def path_exists_def json_load_def
      read_text_def pybind_def try_except_def)

lemma CurseForgeLauncher_manifest_version_raises:
  "lookup w mf = Some (File c tm) \<Longrightarrow> json_loads w c = Some v \<Longrightarrow>
   (\<forall>kvs. v \<noteq> PDict kvs) \<Longrightarrow>
     \<exists>msg. CurseForgeLauncher_manifest_version w mf = Inl (PyExn AttributeError msg)"
  by (cases v)
     (simp_all add: CurseForgeLauncher_manifest_version_def path_exists_def json_load_def
      read_text_def pybind_def try_except_def)

section \<open>Changing the file system\<close>

lemma map_of_map_entry:
  "map_of (map (\<lambda>e. if fst e = k then (fst e, g (snd e)) else e) es) k' =
     (if k' = k then map_option g (map_of es k) else map_of es k')"
  by (induction es) auto

lemma map_of_modify_entry:
  "map_of (map (\<lambda>e. if fst e = k then (fst e, modify_at f (snd e) ks) else e) es) k' =
     (if k' = k then map_option (\<lambda>v. modify_at f v ks) (map_of es k) else map_of es k')"
  by (rule map_of_map_entry)

lemma map_of_filter_key:
  "map_of (filter (\<lambda>e. P (fst e)) es) k = (if P k then map_of es k else None)"
  by (induction es) auto

lemma remove_at_modify_at:
  "remove_at t r (cp @ [k]) = modify_at (drop_entries t {k}) r cp"
proof (induction cp arbitrary: r)
  case Nil
  show ?case by (cases r) (simp_all add: drop_entries_def)
next
  case (Cons k0 cp)
  show ?case
  proof (cases r)
    case (File c m)
    then show ?thesis by simp
  next
    case (Dir m es)
    obtain k1 ks1 where split: "cp @ [k] = k1 # ks1" by (cases cp) auto
    have "remove_at t (Dir m es) (k0 # cp @ [k]) =
          Dir m (map (\<lambda>e. if fst e = k0 then (fst e, remove_at t (snd e) (cp @ [k])) else e) es)"
      unfolding split by simp
    with Dir show ?thesis by (simp add: Cons.IH)
  qed
qed

lemma modify_at_modify_at:
  "modify_at f (modify_at g r cp) cp = modify_at (f \<circ> g) r cp"
proof (induction g r cp rule: modify_at.induct)
  case (1 g n)
  show ?case by simp
next
  case (2 g c t k ks)
  show ?case by simp
next
  case (3 g t es k ks)
  then show ?case by (auto simp: comp_def)
qed

lemma node_at_modify_at_below:
  "node_at (modify_at f r cp) (cp @ s) =
     (case node_at r cp of None \<Rightarrow> None | Some n \<Rightarrow> node_at (f n) s)"
proof (induction f r cp rule: modify_at.induct)
  case (1 f n)
  show ?case by simp
next
  case (2 f c t k ks)
  show ?case by simp
next
  case (3 f t es k ks)
  show ?case
  proof (cases "map_of es k")
    case None
    then show ?thesis by (simp add: map_of_modify_entry)
  next
    case (Some v)
    then have "(k, v) \<in> set es" by (rule map_of_SomeD)
    from 3[OF this] Some show ?thesis by (simp add: map_of_modify_entry)
  qed
qed

lemma node_at_modify_at_above:
  "node_at (modify_at f r (q @ s)) q = map_option (\<lambda>n. modify_at f n s) (node_at r q)"
proof (induction q arbitrary: r)
  case Nil
  show ?case by simp
next
  case (Cons k q)
  show ?case
  proof (cases r)
    case (File c t)
    then show ?thesis by simp
  next
    case (Dir t es)
    then show ?thesis by (simp add: map_of_modify_entry Cons.IH split: option.splits)
  qed
qed

lemma node_at_modify_at_aside:
  "k1 \<noteq> k2 \<Longrightarrow>
   node_at (modify_at f r (c @ k2 # cp)) (c @ k1 # q) = node_at r (c @ k1 # q)"
proof (induction c arbitrary: r)
  case Nil
  then show ?case by (cases r) (simp_all add: map_of_modify_entry)
next
  case (Cons k c)
  show ?case
  proof (cases r)
    case (File c' t)
    then show ?thesis by simp
  next
    case (Dir t es)
    then show ?thesis using Cons by (simp add: map_of_modify_entry split: option.splits)
  qed
qed

lemma two_paths:
  "(\<exists>s. q = cp @ s) \<or> (\<exists>s. s \<noteq> [] \<and> cp = q @ s) \<or>
   (\<exists>c k1 k2 q' cp'. k1 \<noteq> k2 \<and> q = c @ k1 # q' \<and> cp = c @ k2 # cp')"
proof (induction cp arbitrary: q)
  case Nil
  show ?case by simp
next
  case (Cons k cp)
  show ?case
  proof (cases q)
    case Nil
    then show ?thesis by simp
  next
    case (Cons k' q')
    show ?thesis
    proof (cases "k' = k")
      case False
      then have "k' \<noteq> k \<and> q = [] @ k' # q' \<and> k # cp = [] @ k # cp"
        using Cons by simp
      then show ?thesis by blast
    next
      case True
      from Cons.IH[of q'] show ?thesis
      proof (elim disjE exE conjE)
        fix s assume "q' = cp @ s"
        then show ?thesis using Cons True by simp
      next
        fix s assume "s \<noteq> []" "cp = q' @ s"
        then show ?thesis using Cons True by simp
      next
        fix c k1 k2 q'' cp' assume "k1 \<noteq> k2" "q' = c @ k1 # q''" "cp = c @ k2 # cp'"
        then have "k1 \<noteq> k2 \<and> q = (k # c) @ k1 # q'' \<and> k # cp = (k # c) @ k2 # cp'"
          using Cons True by simp
        then show ?thesis by blast
      qed
    qed
  qed
qed

lemma node_at_below_file:
  "node_at r q = Some (File c m) \<Longrightarrow> node_at r (q @ k # ks) = None"
  by (simp add: node_at_append)

lemma node_at_Cons_Dir: "node_at n (k # s) = Some x \<Longrightarrow> \<exists>t es. n = Dir t es"
  by (cases n) auto

lemma not_Dir_File: "\<forall>t es. a \<noteq> Dir t es \<Longrightarrow> \<exists>c m. a = File c m"
  by (cases a) auto

lemma resolve_through_file:
  "node_at r (rev acc) = Some (File c m) \<Longrightarrow> p \<noteq> [] \<Longrightarrow> resolve r acc p = None"
  by (cases p) (auto simp: node_at_append)

text \<open>
  A change that keeps directories directories and takes away regular files only does
  not change where a path resolves to, as long as the target still exists.
\<close>

lemma resolve_preserved:
  assumes D: "\<And>q t es. node_at r q = Some (Dir t es) \<Longrightarrow> \<exists>t' es'. node_at r' q = Some (Dir t' es')"
    and E: "\<And>q. node_at r q \<noteq> None \<Longrightarrow>
              node_at r' q \<noteq> None \<or> (\<exists>c m. node_at r q = Some (File c m))"
  shows "resolve r acc p = Some cp \<Longrightarrow> node_at r' cp \<noteq> None \<Longrightarrow> resolve r' acc p = Some cp"
proof (induction p arbitrary: acc)
  case Nil
  then show ?case by simp
next
  case (Cons k ks)
  show ?case
  proof (cases "k = ''..''")
    case True
    with Cons.prems(1) obtain t es where
      dir: "node_at r (rev acc) = Some (Dir t es)" and rest: "resolve r (tl acc) ks = Some cp"
      by (auto split: option.splits node.splits)
    from D[OF dir] obtain t' es' where "node_at r' (rev acc) = Some (Dir t' es')" by blast
    with True Cons.IH[OF rest Cons.prems(2)] show ?thesis by simp
  next
    case False
    with Cons.prems(1) obtain m where
      ex: "node_at r (rev acc @ [k]) = Some m" and rest: "resolve r (k # acc) ks = Some cp"
      by (auto split: option.splits)
    have "node_at r' (rev acc @ [k]) \<noteq> None"
    proof (cases "\<exists>c t. m = File c t")
      case True
      then obtain c t where m: "m = File c t" by blast
      have "ks = []"
      proof (rule ccontr)
        assume "ks \<noteq> []"
        with resolve_through_file[of r "k # acc" c t ks] ex m rest show False by simp
      qed
      with rest have "cp = rev acc @ [k]" by simp
      with Cons.prems(2) show ?thesis by simp
    next
      case False
      with E[of "rev acc @ [k]"] ex show ?thesis by auto
    qed
    with False Cons.IH[OF rest Cons.prems(2)] show ?thesis by (auto split: option.splits)
  qed
qed

text \<open>Dropping entries that are regular files from the directory at \<open>cd\<close>.\<close>

lemma node_at_drop_entries_same:
  "node_at r cd = Some (Dir t0 es0) \<Longrightarrow>
   node_at (modify_at (drop_entries tn K) r cd) cd = Some (Dir tn (filter (\<lambda>e. fst e \<notin> K) es0))"
  using node_at_modify_at_below[of "drop_entries tn K" r cd "[]"]
  by (simp add: drop_entries_def)

lemma map_of_filter_notin:
  "map_of (filter (\<lambda>e. fst e \<notin> K) es) k = (if k \<in> K then None else map_of es k)"
  by (induction es) auto

lemma node_at_drop_entries_below:
  assumes "node_at r cd = Some (Dir t0 es0)"
  shows "node_at (modify_at (drop_entries tn K) r cd) (cd @ k # s) =
     (if k \<in> K then None else node_at r (cd @ k # s))"
proof -
  have "node_at (modify_at (drop_entries tn K) r cd) (cd @ k # s) =
        node_at (Dir tn (filter (\<lambda>e. fst e \<notin> K) es0)) (k # s)"
    by (simp only: node_at_modify_at_below assms option.case drop_entries_def node.case)
  also have "\<dots> = (if k \<in> K then None else node_at (Dir t0 es0) (k # s))"
    by (simp add: map_of_filter_notin)
  also have "node_at (Dir t0 es0) (k # s) = node_at r (cd @ k # s)"
    by (simp only: node_at_append[of r cd] assms option.case)
  finally show ?thesis .
qed

lemma drop_files_keeps_dirs:
  assumes "node_at r cd = Some (Dir t0 es0)"
    and "\<forall>k \<in> K. \<forall>t es. map_of es0 k \<noteq> Some (Dir t es)"
    and "node_at r q = Some (Dir t es)"
  shows "\<exists>t' es'. node_at (modify_at (drop_entries tn K) r cd) q = Some (Dir t' es')"
proof -
  from two_paths[of q cd] show ?thesis
  proof (elim disjE exE conjE)
    fix s assume q: "q = cd @ s"
    show ?thesis
    proof (cases s)
      case Nil
      with q assms(1) show ?thesis
        by (simp add: node_at_drop_entries_same)
    next
      case (Cons k s')
      show ?thesis
      proof (cases "k \<in> K")
        case True
        with assms(2) have nd: "\<forall>t es. map_of es0 k \<noteq> Some (Dir t es)" by blast
        from assms(3) have "node_at (Dir t0 es0) (k # s') = Some (Dir t es)"
          by (simp add: q Cons node_at_append assms(1))
        then have False using nd
          by (cases "map_of es0 k"; cases s') (auto dest: node_at_Cons_Dir)
        then show ?thesis ..
      next
        case False
        with assms(3) show ?thesis
          by (simp add: q Cons node_at_drop_entries_below[OF assms(1)])
      qed
    qed
  next
    fix s assume s: "s \<noteq> []" and cd: "cd = q @ s"
    then obtain k s' where "s = k # s'" by (cases s) auto
    with assms(3) show ?thesis
      by (simp add: cd node_at_modify_at_above)
  next
    fix c k1 k2 q' cp' assume "k1 \<noteq> k2" "q = c @ k1 # q'" "cd = c @ k2 # cp'"
    with assms(3) show ?thesis by (simp add: node_at_modify_at_aside)
  qed
qed

lemma drop_files_keeps_rest:
  assumes "node_at r cd = Some (Dir t0 es0)"
    and "\<forall>k \<in> K. \<forall>t es. map_of es0 k \<noteq> Some (Dir t es)"
    and "node_at r q \<noteq> None"
  shows "node_at (modify_at (drop_entries tn K) r cd) q \<noteq> None \<or>
         (\<exists>c m. node_at r q = Some (File c m))"
proof -
  from two_paths[of q cd] show ?thesis
  proof (elim disjE exE conjE)
    fix s assume q: "q = cd @ s"
    show ?thesis
    proof (cases s)
      case Nil
      with q assms(1) show ?thesis
        by (simp add: node_at_drop_entries_same)
    next
      case (Cons k s')
      show ?thesis
      proof (cases "k \<in> K")
        case True
        with assms(2) have nd: "\<forall>t es. map_of es0 k \<noteq> Some (Dir t es)" by blast
        from assms(3) have "node_at (Dir t0 es0) (k # s') \<noteq> None"
          by (simp add: q Cons node_at_append assms(1))
        then have "\<exists>c m. node_at (Dir t0 es0) (k # s') = Some (File c m)" using nd
          by (cases "map_of es0 k"; cases s') (auto dest: node_at_Cons_Dir not_Dir_File)
        then show ?thesis by (simp add: q Cons node_at_append assms(1))
      next
        case False
        with assms(3) show ?thesis
          by (simp add: q Cons node_at_drop_entries_below[OF assms(1)])
      qed
    qed
  next
    fix s assume s: "s \<noteq> []" and cd: "cd = q @ s"
    with assms(3) show ?thesis
      by (auto simp: cd node_at_modify_at_above)
  next
    fix c k1 k2 q' cp' assume "k1 \<noteq> k2" "q = c @ k1 # q'" "cd = c @ k2 # cp'"
    with assms(3) show ?thesis by (simp add: node_at_modify_at_aside)
  qed
qed

lemma canon_after_drop_files:
  assumes "canon w d = Some cd"
    and "node_at (root w) cd = Some (Dir t0 es0)"
    and "\<forall>k \<in> K. \<forall>t es. map_of es0 k \<noteq> Some (Dir t es)"
  shows "canon (w\<lparr>root := modify_at (drop_entries tn K) (root w) cd\<rparr>) d = Some cd"
proof -
  have ex: "node_at (modify_at (drop_entries tn K) (root w) cd) cd \<noteq> None"
    using assms(2) by (simp add: node_at_drop_entries_same)
  have "resolve (modify_at (drop_entries tn K) (root w) cd) acc p = Some cd"
    if "resolve (root w) acc p = Some cd" for acc p
  proof (rule resolve_preserved[where r = "root w"])
    show "\<exists>t' es'. node_at (modify_at (drop_entries tn K) (root w) cd) q = Some (Dir t' es')"
      if "node_at (root w) q = Some (Dir t es)" for q t es
      using drop_files_keeps_dirs[OF assms(2,3) that] .
    show "node_at (modify_at (drop_entries tn K) (root w) cd) q \<noteq> None \<or>
          (\<exists>c m. node_at (root w) q = Some (File c m))"
      if "node_at (root w) q \<noteq> None" for q
      using drop_files_keeps_rest[OF assms(2,3) that] .
    show "resolve (root w) acc p = Some cd" by (rule that)
    show "node_at (modify_at (drop_entries tn K) (root w) cd) cd \<noteq> None" by (rule ex)
  qed
  from this[of "if is_absolute d then [] else rev (cwd w)" "parts d"] assms(1)
  show ?thesis by (cases "is_absolute d") (simp_all add: canon_def)
qed

section \<open>Removing log files\<close>

lemma canon_child:
  assumes "canon w d = Some cd" and "k \<noteq> ''..''"
  shows "canon w (child d k) =
           (case node_at (root w) (cd @ [k]) of None \<Rightarrow> None | Some m \<Rightarrow> Some (cd @ [k]))"
proof -
  obtain a ps where d: "d = PPath a ps" by (cases d)
  from assms(1) have "resolve (root w) (if a then [] else rev (cwd w)) ps = Some cd"
    by (simp add: canon_def d)
  then have "resolve (root w) (if a then [] else rev (cwd w)) (ps @ [k]) =
             resolve (root w) (rev cd) [k]"
    by (simp only: resolve_append option.case)
  then show ?thesis using assms(2) by (simp add: canon_def d child_def split: option.splits)
qed

lemma unlink_file_child:
  assumes "canon w d = Some cd"
    and "node_at (root w) cd = Some (Dir t es)"
    and "k \<noteq> ''..''"
    and "map_of es k = Some (File c m)"
  shows "unlink w (child d k) =
           Inr (w\<lparr>root := modify_at (drop_entries (now w) {k}) (root w) cd\<rparr>)"
proof -
  have n: "node_at (root w) (cd @ [k]) = Some (File c m)"
    by (simp add: node_at_append assms(2,4))
  then have "canon w (child d k) = Some (cd @ [k])"
    by (simp add: canon_child[OF assms(1,3)])
  with n show ?thesis by (simp add: unlink_def remove_at_modify_at)
qed

lemma unlink_dir_child:
  assumes "canon w d = Some cd"
    and "node_at (root w) cd = Some (Dir t es)"
    and "k \<noteq> ''..''"
    and "map_of es k = Some (Dir t' es')"
  shows "unlink w (child d k) =
           Inl (PyExn OSError (errno_msg ''[Errno 21] Is a directory'' (child d k)))"
proof -
  have n: "node_at (root w) (cd @ [k]) = Some (Dir t' es')"
    by (simp add: node_at_append assms(2,4))
  then have "canon w (child d k) = Some (cd @ [k])"
    by (simp add: canon_child[OF assms(1,3)])
  with n show ?thesis by (simp add: unlink_def)
qed

lemma drop_entries_compose:
  "drop_entries t K \<circ> drop_entries t {k} = drop_entries t (insert k K)"
proof
  fix n show "(drop_entries t K \<circ> drop_entries t {k}) n = drop_entries t (insert k K) n"
    by (cases n) (auto simp: drop_entries_def intro: filter_cong)
qed

text \<open>
  The loop over regular files of one directory: all are removed, none of the calls
  raises.
\<close>

lemma unlink_each_files:
  assumes "canon w d = Some cd"
    and "node_at (root w) cd = Some (Dir t es)"
    and "distinct ks" and "''..'' \<notin> set ks"
    and "\<forall>k \<in> set ks. \<exists>c m. map_of es k = Some (File c m)"
  shows "unlink_each w (map (child d) ks) =
           (Inr (), if ks = [] then w
                    else w\<lparr>root := modify_at (drop_entries (now w) (set ks)) (root w) cd\<rparr>)"
  using assms
proof (induction ks arbitrary: w t es)
  case Nil
  show ?case by simp
next
  case (Cons k ks)
  from Cons.prems obtain c m where isfile: "map_of es k = Some (File c m)" by auto
  from Cons.prems have k: "k \<noteq> ''..''" by auto
  define w1 where "w1 = w\<lparr>root := modify_at (drop_entries (now w) {k}) (root w) cd\<rparr>"
  have step: "unlink w (child d k) = Inr w1"
    unfolding w1_def by (rule unlink_file_child[OF Cons.prems(1,2) k isfile])
  have nodir: "\<forall>k' \<in> {k}. \<forall>t' es'. map_of es k' \<noteq> Some (Dir t' es')"
    using isfile by simp
  have c1: "canon w1 d = Some cd"
    unfolding w1_def by (rule canon_after_drop_files[OF Cons.prems(1,2) nodir])
  have n1: "node_at (root w1) cd = Some (Dir (now w) (filter (\<lambda>e. fst e \<notin> {k}) es))"
    by (simp add: w1_def node_at_drop_entries_same[OF Cons.prems(2)])
  have d1: "distinct ks" and p1: "''..'' \<notin> set ks" using Cons.prems by auto
  have f1: "\<forall>k' \<in> set ks. \<exists>c m. map_of (filter (\<lambda>e. fst e \<notin> {k}) es) k' = Some (File c m)"
  proof
    fix k' assume k': "k' \<in> set ks"
    with Cons.prems(3) have "k' \<notin> {k}" by auto
    with map_of_filter_notin[of "{k}" es k'] Cons.prems(5) k'
    show "\<exists>c m. map_of (filter (\<lambda>e. fst e \<notin> {k}) es) k' = Some (File c m)"
      by (simp del: singleton_iff)
  qed
  from Cons.IH[OF c1 n1 d1 p1 f1]
  have rest: "unlink_each w1 (map (child d) ks) =
           (Inr (), if ks = [] then w1
                    else w1\<lparr>root := modify_at (drop_entries (now w1) (set ks)) (root w1) cd\<rparr>)" .
  have fin: "(if ks = [] then w1
              else w1\<lparr>root := modify_at (drop_entries (now w1) (set ks)) (root w1) cd\<rparr>) =
             w\<lparr>root := modify_at (drop_entries (now w) (set (k # ks))) (root w) cd\<rparr>"
  proof (cases "ks = []")
    case True
    then show ?thesis by (simp add: w1_def)
  next
    case False
    then show ?thesis
      by (simp add: w1_def modify_at_modify_at drop_entries_compose)
  qed
  show ?case using step rest fin by simp
qed


lemma adapter_clear_logs:
  assumes "l \<in> adapters lp"
  shows "clear_logs l w n =
           (case get_instance_logs_directory l w n of
              Inl e \<Rightarrow> (Inl e, w)
            | Inr logs_dir \<Rightarrow> clear_logs_in w logs_dir)"
  using assms
  by (auto simp: adapters_def VanillaLauncher_def MultiMCLauncher_def PrismLauncherHandler_def
      CurseForgeLauncher_def VanillaLauncher_clear_logs_def MultiMCLauncher_clear_logs_def
      CurseForgeLauncher_clear_logs_def)


lemma not_log_names: "\<not> is_log_name ''.''" "\<not> is_log_name ''..''"
  by code_simp+

lemma set_dir_names: "set (dir_names es) = fst ` set es - {''.'', ''..''}"
  by (auto simp: dir_names_def)

lemma log_names_of_dir:
  "set (filter is_log_name (dir_names es)) = {k \<in> fst ` set es. is_log_name k}"
  using not_log_names by (auto simp: set_dir_names)

lemma filter_log_names:
  "filter (\<lambda>e. fst e \<notin> set (filter is_log_name (dir_names es))) es =
   filter (\<lambda>e. \<not> is_log_name (fst e)) es"
proof (rule filter_cong[OF refl])
  fix x assume "x \<in> set es"
  then have "fst x \<in> fst ` set es" by simp
  then show "(fst x \<notin> set (filter is_log_name (dir_names es))) = (\<not> is_log_name (fst x))"
    unfolding log_names_of_dir by simp
qed

lemma glob_log_dir:
  "lookup w d = Some (Dir t es) \<Longrightarrow>
   glob_log w d = map (child d) (filter is_log_name (dir_names es))"
  by (simp add: glob_log_def)

lemma lookup_canon:
  "lookup w d = Some n \<Longrightarrow> \<exists>cd. canon w d = Some cd \<and> node_at (root w) cd = Some n"
  by (auto simp: lookup_def split: option.splits)

text \<open>What \<open>clear_logs\<close> does in a directory whose log entries are regular files.\<close>

lemma clear_logs_in_files:
  assumes "lookup w d = Some (Dir t es)"
    and "canon w d = Some cd"
    and "\<forall>k t' es'. is_log_name k \<longrightarrow> map_of es k \<noteq> Some (Dir t' es')"
  shows "clear_logs_in w (Some d) =
           (Inr True,
            if filter is_log_name (dir_names es) = [] then w
            else w\<lparr>root := modify_at
                     (drop_entries (now w) (set (filter is_log_name (dir_names es))))
                     (root w) cd\<rparr>)"
proof -
  define ks where "ks = filter is_log_name (dir_names es)"
  have n: "node_at (root w) cd = Some (Dir t es)"
    using assms(1,2) by (simp add: lookup_def)
  have d: "distinct ks" by (simp add: ks_def dir_names_def)
  have p: "''..'' \<notin> set ks" by (simp add: ks_def dir_names_def)
  have f: "\<forall>k \<in> set ks. \<exists>c m. map_of es k = Some (File c m)"
  proof
    fix k assume "k \<in> set ks"
    then have "k \<in> fst ` set es" and lg: "is_log_name k"
      unfolding ks_def log_names_of_dir by auto
    then obtain v where v: "map_of es k = Some v"
      by (cases "map_of es k") (auto simp: map_of_eq_None_iff)
    with assms(3) lg have "\<forall>t' es'. v \<noteq> Dir t' es'" by auto
    with v not_Dir_File show "\<exists>c m. map_of es k = Some (File c m)" by blast
  qed
  from unlink_each_files[OF assms(2) n d p f]
  show ?thesis
    using assms(1)
    by (simp add: clear_logs_in_def path_exists_def glob_log_dir ks_def)
qed

lemma modify_at_Dir_Cons:
  "\<exists>t' es'. modify_at f (Dir t es) (k # s) = Dir t' es'"
  by simp

text \<open>
  After the log files of the directory at \<open>cd\<close> are dropped, the regular files of the
  file system are those it had, less the dropped ones.
\<close>

lemma drop_log_files_frame:
  assumes n: "node_at r cd = Some (Dir t es)"
    and K: "K = {k \<in> fst ` set es. is_log_name k}"
    and files: "\<forall>k \<in> K. \<exists>c m. map_of es k = Some (File c m)"
  shows "node_at (modify_at (drop_entries tn K) r cd) q = Some (File c m) \<longleftrightarrow>
         node_at r q = Some (File c m) \<and> \<not> (\<exists>k. is_log_name k \<and> q = cd @ [k])"
proof -
  from two_paths[of q cd] show ?thesis
  proof (elim disjE exE conjE)
    fix s assume q: "q = cd @ s"
    show ?thesis
    proof (cases s)
      case Nil
      then show ?thesis by (simp add: q n node_at_drop_entries_same[OF n])
    next
      case (Cons k s')
      have here: "node_at r (cd @ k # s') = (case map_of es k of None \<Rightarrow> None | Some v \<Rightarrow> node_at v s')"
        by (simp add: node_at_append n)
      show ?thesis
      proof (cases "k \<in> K")
        case True
        with files obtain c' m' where f: "map_of es k = Some (File c' m')" by blast
        from True K have lg: "is_log_name k" by simp
        have "node_at r q = Some (File c m) \<longrightarrow> s' = []"
          unfolding q Cons here f by (cases s') simp_all
        with lg True show ?thesis
          by (auto simp: q Cons node_at_drop_entries_below[OF n])
      next
        case False
        have "\<not> is_log_name k" if "node_at r q = Some (File c m)" "s' = []"
        proof
          assume lg: "is_log_name k"
          from that have "map_of es k = Some (File c m)"
            unfolding q Cons here by (simp split: option.splits)
          then have "k \<in> fst ` set es" by (metis map_of_eq_None_iff option.distinct(1))
          with lg K False show False by simp
        qed
        with False show ?thesis
          by (auto simp: q Cons node_at_drop_entries_below[OF n])
      qed
    qed
  next
    fix s assume s: "s \<noteq> []" and cd: "cd = q @ s"
    then obtain k s' where s': "s = k # s'" by (cases s) auto
    from n have "node_at r (q @ k # s') \<noteq> None" by (simp add: cd s')
    then obtain v where v: "node_at r q = Some v" and "node_at v (k # s') \<noteq> None"
      by (auto simp: node_at_append split: option.splits)
    then obtain t' es' where d: "v = Dir t' es'" by (cases v) auto
    show ?thesis
      using s by (simp add: cd s' node_at_modify_at_above v d)
  next
    fix c' k1 k2 q' cp' assume "k1 \<noteq> k2" "q = c' @ k1 # q'" "cd = c' @ k2 # cp'"
    then show ?thesis by (auto simp: node_at_modify_at_aside)
  qed
qed

text \<open>
  C6. For the four adapters: when the logs directory of an instance resolves, is a
  directory, and its entries named \<open>*.log\<close> are regular files, \<open>clear_logs\<close> returns
  true; afterwards the directory holds exactly its other entries, each as it was, and
  the regular files of the whole file system are those it had, less the \<open>*.log\<close> files
  of that directory.
\<close>

theorem clear_logs_removes_exactly_log_files:
  assumes "l \<in> adapters lp"
    and "get_instance_logs_directory l w n = Inr (Some d)"
    and "lookup w d = Some (Dir t es)"
    and "\<forall>k t' es'. is_log_name k \<longrightarrow> map_of es k \<noteq> Some (Dir t' es')"
  shows "\<exists>w' cd t'.
           clear_logs l w n = (Inr True, w') \<and>
           canon w d = Some cd \<and>
           lookup w' d = Some (Dir t' (filter (\<lambda>e. \<not> is_log_name (fst e)) es)) \<and>
           (\<forall>q c m. node_at (root w') q = Some (File c m) \<longleftrightarrow>
                    node_at (root w) q = Some (File c m) \<and>
                    \<not> (\<exists>k. is_log_name k \<and> q = cd @ [k]))"
proof -
  from lookup_canon[OF assms(3)] obtain cd where
    cd: "canon w d = Some cd" and n: "node_at (root w) cd = Some (Dir t es)" by blast
  define ks where "ks = filter is_log_name (dir_names es)"
  define K where "K = {k \<in> fst ` set es. is_log_name k}"
  have K: "set ks = K" by (simp only: ks_def K_def log_names_of_dir)
  have files: "\<forall>k \<in> K. \<exists>c m. map_of es k = Some (File c m)"
  proof
    fix k assume "k \<in> K"
    then have "k \<in> fst ` set es" and lg: "is_log_name k" by (auto simp: K_def)
    then obtain v where v: "map_of es k = Some v"
      by (cases "map_of es k") (auto simp: map_of_eq_None_iff)
    with assms(4) lg have "\<forall>t' es'. v \<noteq> Dir t' es'" by auto
    with v not_Dir_File show "\<exists>c m. map_of es k = Some (File c m)" by blast
  qed
  define w' where
    "w' = (if ks = [] then w
           else w\<lparr>root := modify_at (drop_entries (now w) (set ks)) (root w) cd\<rparr>)"
  have "clear_logs_in w (Some d) = (Inr True, w')"
    unfolding w'_def ks_def by (rule clear_logs_in_files[OF assms(3) cd assms(4)])
  then have run: "clear_logs l w n = (Inr True, w')"
    by (simp add: adapter_clear_logs[OF assms(1)] assms(2))
  have keep: "filter (\<lambda>e. fst e \<notin> K) es = filter (\<lambda>e. \<not> is_log_name (fst e)) es"
    using filter_log_names[of es] by (simp only: K[unfolded ks_def, symmetric])
  show ?thesis
  proof (cases "ks = []")
    case True
    then have same: "w' = w" by (simp add: w'_def)
    from True K have empty: "K = {}" by simp
    then have "filter (\<lambda>e. \<not> is_log_name (fst e)) es = es"
      using keep by simp
    with assms(3) have look: "lookup w' d = Some (Dir t (filter (\<lambda>e. \<not> is_log_name (fst e)) es))"
      by (simp add: same)
    have "\<not> (\<exists>k. is_log_name k \<and> q = cd @ [k])" if "node_at (root w) q = Some (File c m)"
      for q c m
    proof
      assume "\<exists>k. is_log_name k \<and> q = cd @ [k]"
      then obtain k where lg: "is_log_name k" and q: "q = cd @ [k]" by blast
      from that have "map_of es k = Some (File c m)"
        by (simp add: q node_at_append n split: option.splits)
      then have "k \<in> fst ` set es" by (metis map_of_eq_None_iff option.distinct(1))
      with lg empty show False by (simp add: K_def)
    qed
    then have "\<forall>q c m. node_at (root w') q = Some (File c m) \<longleftrightarrow>
                    node_at (root w) q = Some (File c m) \<and>
                    \<not> (\<exists>k. is_log_name k \<and> q = cd @ [k])"
      unfolding same by blast
    with run cd look show ?thesis by blast
  next
    case False
    then have r': "root w' = modify_at (drop_entries (now w) K) (root w) cd"
      by (simp add: w'_def K)
    have nodir: "\<forall>k \<in> K. \<forall>t' es'. map_of es k \<noteq> Some (Dir t' es')"
      using files by auto
    have "canon w' d = Some cd"
      using canon_after_drop_files[OF cd n nodir, of "now w"] False by (simp add: w'_def K)
    moreover have "node_at (root w') cd = Some (Dir (now w) (filter (\<lambda>e. fst e \<notin> K) es))"
      by (simp only: r' node_at_drop_entries_same[OF n])
    ultimately have look:
      "lookup w' d = Some (Dir (now w) (filter (\<lambda>e. \<not> is_log_name (fst e)) es))"
      by (simp add: lookup_def keep)
    have "\<forall>q c m. node_at (root w') q = Some (File c m) \<longleftrightarrow>
                    node_at (root w) q = Some (File c m) \<and>
                    \<not> (\<exists>k. is_log_name k \<and> q = cd @ [k])"
      unfolding r' using drop_log_files_frame[OF n K_def files] by blast
    with run cd look show ?thesis by blast
  qed
qed

theorem clear_logs_removes_exactly_log_files_witness:
  "\<exists>w' t'.
     clear_logs (MultiMCLauncher demo_multimc_path) demo_world ''pack'' = (Inr True, w') \<and>
     lookup w' demo_pack_logs = Some (Dir t' [(''notes.txt'', File ''keep me'' 2)])"
proof -
  define es where
    "es = [(''latest.log'', File ''[main/INFO]: Loading'' 5),
           (''debug.log'', File ''[main/DEBUG]: Start'' 4),
           (''notes.txt'', File ''keep me'' 2)]"
  have h1: "MultiMCLauncher demo_multimc_path \<in> adapters demo_multimc_path"
    by (simp add: adapters_def)
  have h2: "get_instance_logs_directory (MultiMCLauncher demo_multimc_path) demo_world ''pack'' =
              Inr (Some demo_pack_logs)"
    by code_simp
  have h3: "lookup demo_world demo_pack_logs = Some (Dir 5 es)"
    unfolding es_def by code_simp
  have h4: "\<forall>k t' es'. is_log_name k \<longrightarrow> map_of es k \<noteq> Some (Dir t' es')"
    by (simp add: es_def)
  have keep: "filter (\<lambda>e. \<not> is_log_name (fst e)) es = [(''notes.txt'', File ''keep me'' 2)]"
    unfolding es_def by code_simp
  from clear_logs_removes_exactly_log_files[OF h1 h2 h3 h4]
  show ?thesis unfolding keep by blast
qed





section \<open>MultiMC and Prism\<close>




lemma multimc_record_path:
  "multimc_record ip n = Some i \<Longrightarrow> map_of i ''path'' = Some (PStr (path_str ip))"
  by (auto simp: multimc_record_def split: node.splits option.splits)













section \<open>The logs of a Vanilla profile\<close>

lemma VanillaLauncher_logs_directory_profile:
  assumes "lookup w (pjoin lp ''launcher_profiles.json'') = Some (File c tm)"
    and "json_loads w c = Some (PDict data)"
    and "map_of data ''profiles'' = Some (PDict profiles)"
    and "map_of profiles name = Some (PDict profile)"
    and "profile \<noteq> []"
    and "map_of profile ''gameDir'' = None \<or> (\<exists>s. map_of profile ''gameDir'' = Some (PStr s))"
  shows "VanillaLauncher_get_instance_logs_directory lp w name =
           (let game_dir = (case map_of profile ''gameDir'' of Some (PStr s) \<Rightarrow> Path s | _ \<Rightarrow> lp);
                logs_dir = pjoin game_dir ''logs''
            in Inr (if path_exists w logs_dir then Some logs_dir else None))"
  using assms
  by (auto simp: VanillaLauncher_get_instance_logs_directory_def path_exists_def json_load_def
      read_text_def pybind_def try_except_def get_path_or_def Path_of_def Let_def)

lemma hd_sort_key_least:
  assumes "xs \<noteq> []"
  shows "hd (sort_key f xs) \<in> set xs \<and> (\<forall>x \<in> set xs. f (hd (sort_key f xs)) \<le> f x)"
proof -
  from assms have ne: "sort_key f xs \<noteq> []" by (metis length_0_conv length_sort)
  then obtain y ys where s: "sort_key f xs = y # ys" by (cases "sort_key f xs") auto
  have "sorted (map f (sort_key f xs))" by (rule sorted_sort_key)
  then have "\<forall>x \<in> set (y # ys). f y \<le> f x" unfolding s by auto
  moreover have "set (y # ys) = set xs" unfolding s[symmetric] by simp
  ultimately show ?thesis unfolding s by auto
qed

lemma mapM_exn_Inr:
  "(\<And>x. x \<in> set xs \<Longrightarrow> f x = Inr (g x)) \<Longrightarrow> mapM_exn f xs = Inr (map g xs)"
  by (induction xs) simp_all

lemma st_mtime_child:
  assumes "lookup w d = Some (Dir t es)" and "k \<in> set (dir_names es)"
  shows "\<exists>v. map_of es k = Some v \<and> st_mtime w (child d k) = Inr (node_mtime v)"
proof -
  from assms(2) have k: "k \<noteq> ''..''" and "k \<in> fst ` set es" by (auto simp: set_dir_names)
  then obtain v where v: "map_of es k = Some v"
    by (cases "map_of es k") (auto simp: map_of_eq_None_iff)
  then show ?thesis by (simp add: st_mtime_def lookup_child[OF k] assms(1))
qed

lemma sorted_newest_first_children:
  assumes "lookup w d = Some (Dir t es)"
    and "set ks \<subseteq> set (dir_names es)"
    and "ks \<noteq> []"
  shows "\<exists>k \<in> set ks. \<exists>rest.
           sorted_newest_first w (map (child d) ks) = Inr (child d k # rest) \<and>
           (\<forall>k' \<in> set ks. node_mtime (the (map_of es k')) \<le> node_mtime (the (map_of es k)))"
proof -
  let ?mt = "\<lambda>k. node_mtime (the (map_of es k))"
  have "st_mtime w (child d k) = Inr (?mt k)" if "k \<in> set ks" for k
  proof -
    from that assms(2) have "k \<in> set (dir_names es)" by blast
    from st_mtime_child[OF assms(1) this] obtain v where
      "map_of es k = Some v" "st_mtime w (child d k) = Inr (node_mtime v)" by blast
    then show ?thesis by simp
  qed
  then have "mapM_exn (st_mtime w) (map (child d) ks) = Inr (map (\<lambda>p. ?mt (path_name p)) (map (child d) ks))"
    by (intro mapM_exn_Inr) auto
  then have ts: "mapM_exn (st_mtime w) (map (child d) ks) = Inr (map ?mt ks)"
    by (simp add: comp_def)
  let ?pairs = "map (\<lambda>k. (?mt k, child d k)) ks"
  have z: "zip (map ?mt ks) (map (child d) ks) = ?pairs"
    by (induction ks) simp_all
  have ne: "?pairs \<noteq> []" using assms(3) by simp
  let ?s = "sort_key (\<lambda>tp. - fst tp) ?pairs"
  from hd_sort_key_least[OF ne, of "\<lambda>tp. - fst tp"] have
    h1: "hd ?s \<in> set ?pairs" and h2: "\<forall>x \<in> set ?pairs. - fst (hd ?s) \<le> - fst x"
    by blast+
  from h1 obtain k where k: "k \<in> set ks" and hd: "hd ?s = (?mt k, child d k)" by auto
  have "?s \<noteq> []" using ne by (metis length_0_conv length_sort)
  then obtain rest where s: "?s = (?mt k, child d k) # rest"
    using hd by (cases ?s) auto
  have run: "sorted_newest_first w (map (child d) ks) = Inr (child d k # map snd rest)"
    by (simp add: sorted_newest_first_def ts pybind_def z s)
  have "\<forall>k' \<in> set ks. ?mt k' \<le> ?mt k"
    using h2 by (auto simp: hd)
  with k run show ?thesis by blast
qed

lemma VanillaLauncher_get_logs_newest:
  assumes "VanillaLauncher_get_instance_logs_directory lp w name = Inr (Some d)"
    and "lookup w d = Some (Dir t es)"
  shows "(filter is_log_name (dir_names es) = [] \<longrightarrow>
            VanillaLauncher_get_logs lp w name = Inr None) \<and>
         (filter is_log_name (dir_names es) \<noteq> [] \<longrightarrow>
            (\<exists>k \<in> set (filter is_log_name (dir_names es)).
               (\<forall>k' \<in> set (filter is_log_name (dir_names es)).
                  node_mtime (the (map_of es k')) \<le> node_mtime (the (map_of es k))) \<and>
               VanillaLauncher_get_logs lp w name = read_log w (child d k)))"
proof -
  let ?ks = "filter is_log_name (dir_names es)"
  have ex: "path_exists w d" using assms(2) by (simp add: path_exists_def)
  have g: "glob_log w d = map (child d) ?ks" by (rule glob_log_dir[OF assms(2)])
  have none: "VanillaLauncher_get_logs lp w name = Inr None" if "?ks = []"
    using that by (simp add: VanillaLauncher_get_logs_def assms(1) pybind_def ex g
        sorted_newest_first_def)
  have some: "\<exists>k \<in> set ?ks.
               (\<forall>k' \<in> set ?ks. node_mtime (the (map_of es k')) \<le> node_mtime (the (map_of es k))) \<and>
               VanillaLauncher_get_logs lp w name = read_log w (child d k)"
    if "?ks \<noteq> []"
  proof -
    have sub: "set ?ks \<subseteq> set (dir_names es)" by auto
    from sorted_newest_first_children[OF assms(2) sub that] obtain k rest where
      k: "k \<in> set ?ks" and
      run: "sorted_newest_first w (map (child d) ?ks) = Inr (child d k # rest)" and
      newest: "\<forall>k' \<in> set ?ks. node_mtime (the (map_of es k')) \<le> node_mtime (the (map_of es k))"
      by blast
    have "VanillaLauncher_get_logs lp w name = read_log w (child d k)"
      by (simp add: VanillaLauncher_get_logs_def assms(1) pybind_def ex g run)
    with k newest show ?thesis by blast
  qed
  from none some show ?thesis by blast
qed

lemma read_log_file:
  "lookup w p = Some (File c m) \<Longrightarrow> read_log w p = Inr (Some c)"
  by (simp add: read_log_def read_text_def pybind_def try_except_def)

end
